theory Spec2Isabelle
  imports Complex_Main "HOL-Library.Sublist"
begin

section \<open>Python values, exceptions and validation errors\<close>

text \<open>
  The values that the forms of \<^verbatim>\<open>cms/polls/views/question.py\<close> keep in
  \<^verbatim>\<open>cleaned_data\<close>: \<^verbatim>\<open>None\<close>, booleans, integers, datetimes (an instant, as a
  number of microseconds) and model instances (by primary key).
\<close>

datatype pyval = PNone | PBool bool | PInt int | PTime int | PObj nat

datatype py_error = TypeError | IndexError | KeyError | ValueError | ValidationRaised

text \<open>\<^verbatim>\<open>ValidationError(message, code=None, params=None)\<close>.\<close>

datatype validation_error =
  ValidationError (message: string) (code: "string option") (params: "(string \<times> int) list")

text \<open>Python truthiness, as \<^verbatim>\<open>if x:\<close> and \<^verbatim>\<open>x and y\<close> test it.\<close>

fun truthy :: "pyval \<Rightarrow> bool" where
  "truthy PNone = False"
| "truthy (PBool b) = b"
| "truthy (PInt i) = (i \<noteq> 0)"
| "truthy (PTime t) = True"
| "truthy (PObj p) = True"

text \<open>
  The ordering \<^verbatim>\<open>a > b\<close>: integers (and booleans, a subclass of \<^verbatim>\<open>int\<close>) compare
  as numbers, datetimes as instants; every other pairing raises \<^verbatim>\<open>TypeError\<close>.
\<close>

fun py_gt :: "pyval \<Rightarrow> pyval \<Rightarrow> py_error + bool" where
  "py_gt (PInt a) (PInt b) = Inr (a > b)"
| "py_gt (PInt a) (PBool b) = Inr (a > (if b then 1 else 0))"
| "py_gt (PBool a) (PInt b) = Inr ((if a then 1 else 0) > b)"
| "py_gt (PBool a) (PBool b) = Inr (a \<and> \<not> b)"
| "py_gt (PTime a) (PTime b) = Inr (a > b)"
| "py_gt _ _ = Inl TypeError"

text \<open>\<^verbatim>\<open>a < b\<close> is \<^verbatim>\<open>b > a\<close> on these types.\<close>

definition py_lt :: "pyval \<Rightarrow> pyval \<Rightarrow> py_error + bool" where
  "py_lt a b = py_gt b a"

text \<open>\<^verbatim>\<open>d.get(key, None)\<close> on a dictionary.\<close>

definition dict_get :: "(string \<rightharpoonup> pyval) \<Rightarrow> string \<Rightarrow> pyval" where
  "dict_get d k = (case d k of None \<Rightarrow> PNone | Some v \<Rightarrow> v)"

section \<open>Forms: cleaned data and the error dictionary\<close>

text \<open>
  A form during validation: \<^verbatim>\<open>cleaned_data\<close> is a dictionary, \<^verbatim>\<open>_errors\<close> an
  insertion-ordered dictionary from field names to lists of errors (an association list,
  since \<^verbatim>\<open>len(self.errors)\<close> counts its keys).
\<close>

type_synonym error_dict = "(string \<times> validation_error list) list"

record form =
  cleaned_data :: "string \<rightharpoonup> pyval"
  errors :: error_dict

definition NON_FIELD_ERRORS :: string where
  "NON_FIELD_ERRORS = ''__all__''"

text \<open>\<^verbatim>\<open>self._errors[field].extend(error_list)\<close>, creating the entry when it is missing.\<close>

fun errors_extend :: "string \<Rightarrow> validation_error list \<Rightarrow> error_dict \<Rightarrow> error_dict" where
  "errors_extend k es [] = [(k, es)]"
| "errors_extend k es ((k', v) # rest) =
     (if k' = k then (k', v @ es) # rest else (k', v) # errors_extend k es rest)"

text \<open>The errors listed under a field; none when the key is missing.\<close>

definition errors_of :: "'a form_scheme \<Rightarrow> string \<Rightarrow> validation_error list" where
  "errors_of self k = (case map_of (errors self) k of None \<Rightarrow> [] | Some es \<Rightarrow> es)"

text \<open>
  The framework's \<^verbatim>\<open>BaseForm.add_error(field, error)\<close> for a single error on a
  declared field or on \<^verbatim>\<open>NON_FIELD_ERRORS\<close>: the error is appended to the field's list
  and the field is deleted from \<^verbatim>\<open>cleaned_data\<close>.
\<close>

definition add_error :: "'a form_scheme \<Rightarrow> string \<Rightarrow> validation_error \<Rightarrow> 'a form_scheme" where
  "add_error self field error =
     self\<lparr>errors := errors_extend field [error] (errors self),
          cleaned_data := (cleaned_data self)(field := None)\<rparr>"

section \<open>Formsets\<close>

text \<open>
  A validated formset: its child forms, \<^verbatim>\<open>can_delete\<close>, the list \<^verbatim>\<open>_errors\<close> (one
  error dictionary for each form that is not deleted) and \<^verbatim>\<open>_non_form_errors\<close>.
\<close>

record formset =
  forms :: "form list"
  can_delete :: bool
  form_errors :: "error_dict list"
  non_form_errors :: "validation_error list"

text \<open>\<^verbatim>\<open>BaseFormSet.total_error_count\<close>:
  \<^verbatim>\<open>len(self.non_form_errors()) + sum(len(form_errors) for form_errors in self.errors)\<close>.\<close>

definition total_error_count :: "formset \<Rightarrow> nat" where
  "total_error_count fs =
     length (non_form_errors fs) + sum_list (map length (form_errors fs))"

section \<open>QuestionForm\<close>

text \<open>
  \<^verbatim>\<open>QuestionForm\<close> is a \<^verbatim>\<open>SuperModelForm\<close>: a form with the ordered dictionary
  \<^verbatim>\<open>formsets\<close> of its nested formsets and the flag \<^verbatim>\<open>_validate_unique\<close> that
  \<^verbatim>\<open>ModelForm.clean\<close> sets.
\<close>

record question_form = form +
  formsets :: "(string \<times> formset) list"
  validate_unique :: bool

text \<open>\<^verbatim>\<open>QuestionForm.check_vote_end\<close>.\<close>

definition check_vote_end ::
  "'a question_form_scheme \<Rightarrow> py_error + 'a question_form_scheme" where
  "check_vote_end self =
     (let vote_end = dict_get (cleaned_data self) ''vote_end'';
          vote_start = dict_get (cleaned_data self) ''vote_start''
      in if vote_start \<noteq> PNone \<and> vote_end \<noteq> PNone
         then (case py_gt vote_start vote_end of
                 Inl e \<Rightarrow> Inl e
               | Inr b \<Rightarrow>
                   if b
                   then Inr (add_error self ''vote_end''
                          (ValidationError
                             ''Ensure this time is later than the vote start date.''
                             (Some ''vote_end_too_early'') []))
                   else Inr self)
         else Inr self)"

text \<open>\<^verbatim>\<open>QuestionForm.check_max_vote_count\<close>.\<close>

definition check_max_vote_count ::
  "'a question_form_scheme \<Rightarrow> py_error + 'a question_form_scheme" where
  "check_max_vote_count self =
     (let max_vote_count = dict_get (cleaned_data self) ''max_vote_count'';
          has_max_vote_count = dict_get (cleaned_data self) ''has_max_vote_count'';
          self1 = (if max_vote_count = PNone \<and> truthy has_max_vote_count
                   then add_error self ''max_vote_count''
                          (ValidationError ''This field is required.''
                             (Some ''max_vote_count_required'') [])
                   else self)
      in if max_vote_count \<noteq> PNone
         then (case py_lt max_vote_count (PInt 0) of
                 Inl e \<Rightarrow> Inl e
               | Inr b \<Rightarrow>
                   if b
                   then Inr (add_error self1 ''max_vote_count''
                          (ValidationError ''Ensure this value is positive.''
                             (Some ''max_vote_count_positive'') []))
                   else Inr self1)
         else Inr self1)"

text \<open>
  \<^verbatim>\<open>QuestionForm.check_selection_bounds\<close>; \<^verbatim>\<open>len(choices)\<close> is the number of forms
  of the formset \<^verbatim>\<open>self.formsets['choices']\<close>, and a missing key raises \<^verbatim>\<open>KeyError\<close>.
\<close>

definition check_selection_bounds ::
  "'a question_form_scheme \<Rightarrow> py_error + 'a question_form_scheme" where
  "check_selection_bounds self =
     (let min_selection = dict_get (cleaned_data self) ''min_selection'';
          max_selection = dict_get (cleaned_data self) ''max_selection''
      in case map_of (formsets self) ''choices'' of
           None \<Rightarrow> Inl KeyError
         | Some choices \<Rightarrow>
            (case (if min_selection \<noteq> PNone \<and> max_selection \<noteq> PNone
                   then (case py_gt min_selection max_selection of
                           Inl e \<Rightarrow> Inl e
                         | Inr b \<Rightarrow>
                             if b
                             then Inr (add_error self ''max_selection''
                                    (ValidationError
                                       ''Ensure this value is greater than or equal to the min selection.''
                                       (Some ''max_selection_too_small'') []))
                             else Inr self)
                   else Inr self) of
               Inl e \<Rightarrow> Inl e
             | Inr self1 \<Rightarrow>
                 if min_selection \<noteq> PNone
                 then (case py_gt min_selection (PInt (int (length (forms choices)))) of
                         Inl e \<Rightarrow> Inl e
                       | Inr b \<Rightarrow>
                           if b
                           then Inr (add_error self1 ''min_selection''
                                  (ValidationError
                                     ''Ensure this value is less than or equal to the number of choices (%(len)s).''
                                     (Some ''max_selection_too_small'')
                                     [(''len'', int (length (forms choices)))]))
                           else Inr self1)
                 else Inr self1))"

text \<open>
  \<^verbatim>\<open>QuestionForm.check_total_vote_count\<close>. It returns \<^verbatim>\<open>total_vote_count\<close> on its
  early return and \<^verbatim>\<open>None\<close> otherwise; the returned value comes first in the pair.
\<close>

definition check_total_vote_count ::
  "'a question_form_scheme \<Rightarrow> py_error + (pyval \<times> 'a question_form_scheme)" where
  "check_total_vote_count self =
     (let total_vote_count = dict_get (cleaned_data self) ''total_vote_count'';
          has_max_vote_count = dict_get (cleaned_data self) ''has_max_vote_count''
      in if \<not> truthy has_max_vote_count
         then Inr (total_vote_count, self)
         else
           (let max_vote_count = dict_get (cleaned_data self) ''max_vote_count''
            in if truthy max_vote_count
               then (case py_gt total_vote_count max_vote_count of
                       Inl e \<Rightarrow> Inl e
                     | Inr b \<Rightarrow>
                         if b
                         then Inr (PNone, add_error self ''max_vote_count''
                                (ValidationError
                                   ''Ensure total vote count is less than or equal to the max vote count.''
                                   (Some ''total_vote_count_too_big'') []))
                         else Inr (PNone, self))
               else Inr (PNone, self)))"

text \<open>
  \<^verbatim>\<open>ModelForm.clean\<close>, reached by \<^verbatim>\<open>super().clean()\<close>: it sets
  \<^verbatim>\<open>self._validate_unique\<close> and returns the cleaned data.
\<close>

definition ModelForm_clean :: "'a question_form_scheme \<Rightarrow> 'a question_form_scheme" where
  "ModelForm_clean self = self\<lparr>validate_unique := True\<rparr>"

text \<open>
  The first half of \<^verbatim>\<open>QuestionForm.clean\<close>: \<^verbatim>\<open>super().clean()\<close> and the four
  related-field checks, in the order of the source.
\<close>

definition clean_checks ::
  "'a question_form_scheme \<Rightarrow> py_error + 'a question_form_scheme" where
  "clean_checks self =
     (case check_vote_end (ModelForm_clean self) of
        Inl e \<Rightarrow> Inl e
      | Inr self1 \<Rightarrow>
     (case check_max_vote_count self1 of
        Inl e \<Rightarrow> Inl e
      | Inr self2 \<Rightarrow>
     (case check_selection_bounds self2 of
        Inl e \<Rightarrow> Inl e
      | Inr self3 \<Rightarrow>
     (case check_total_vote_count self3 of
        Inl e \<Rightarrow> Inl e
      | Inr (_, self4) \<Rightarrow> Inr self4))))"

text \<open>The loop \<^verbatim>\<open>for _, formset in self.formsets.items(): error_count += ...\<close>.\<close>

definition count_formset_errors :: "(string \<times> formset) list \<Rightarrow> nat \<Rightarrow> nat" where
  "count_formset_errors fss error_count =
     fold (\<lambda>(_, formset) n. n + total_error_count formset) fss error_count"

text \<open>\<^verbatim>\<open>QuestionForm.clean\<close>: the checks, then the full form validation.\<close>

definition clean ::
  "'a question_form_scheme \<Rightarrow> py_error + 'a question_form_scheme" where
  "clean self =
     (case clean_checks self of
        Inl e \<Rightarrow> Inl e
      | Inr self4 \<Rightarrow>
          (let error_count = count_formset_errors (formsets self4) (length (errors self4))
           in if error_count > 0
              then Inr (add_error self4 NON_FIELD_ERRORS
                     (ValidationError ''Please correct the error(s) below (%(len)s total).''
                        None [(''len'', int error_count)]))
              else Inr self4))"

section \<open>QuestionFollowersFormSet\<close>






section \<open>FormSetForm\<close>

text \<open>A child form with the class attribute \<^verbatim>\<open>parent_instance_field\<close>.\<close>

record formset_form = form +
  parent_instance_field :: string

text \<open>\<^verbatim>\<open>self._errors.pop(key)\<close> for a key that is present.\<close>

definition errors_pop :: "string \<Rightarrow> error_dict \<Rightarrow> error_dict" where
  "errors_pop k d = filter (\<lambda>entry. fst entry \<noteq> k) d"

text \<open>
  \<^verbatim>\<open>FormSetForm.full_clean\<close>. \<^verbatim>\<open>super().full_clean()\<close> is the framework's validation
  of a model form, a parameter here. \<^verbatim>\<open>self._errors.get(key)\<close> is \<^verbatim>\<open>None\<close> or an
  error list, which is true when it is not empty.
\<close>

definition FormSetForm_full_clean ::
  "('a formset_form_scheme \<Rightarrow> 'a formset_form_scheme) \<Rightarrow>
   'a formset_form_scheme \<Rightarrow> 'a formset_form_scheme" where
  "FormSetForm_full_clean super_full_clean self =
     (let self1 = super_full_clean self
      in if (case map_of (errors self1) (parent_instance_field self1) of
               None \<Rightarrow> False | Some es \<Rightarrow> es \<noteq> [])
         then self1\<lparr>errors := errors_pop (parent_instance_field self1) (errors self1)\<rparr>
         else self1)"

section \<open>MaxVoteCountForm and FieldDataMixin\<close>

text \<open>
  Widget attributes are booleans or strings. A form has \<^verbatim>\<open>is_bound\<close>, the dictionary
  \<^verbatim>\<open>initial\<close>, the framework's \<^verbatim>\<open>self[name].value()\<close> of its bound fields, and
  \<^verbatim>\<open>fields\<close> (\<open>form_fields\<close>), here each field's \<^verbatim>\<open>widget.attrs\<close>.
\<close>

datatype attr_val = ABool bool | AStr string

type_synonym widget_attrs = "string \<rightharpoonup> attr_val"

record data_form =
  is_bound :: bool
  initial :: "string \<rightharpoonup> pyval"
  bound_value :: "string \<Rightarrow> pyval"
  form_fields :: "string \<rightharpoonup> widget_attrs"

text \<open>
  \<^verbatim>\<open>FieldDataMixin.get_field_value\<close>; \<^verbatim>\<open>self[field_name]\<close> raises \<^verbatim>\<open>KeyError\<close> for a
  name that is not a field of the form.
\<close>

definition get_field_value :: "'a data_form_scheme \<Rightarrow> string \<Rightarrow> py_error + pyval" where
  "get_field_value self field_name =
     (if is_bound self
      then (case form_fields self field_name of
              None \<Rightarrow> Inl KeyError
            | Some _ \<Rightarrow> Inr (bound_value self field_name))
      else Inr (dict_get (initial self) field_name))"

text \<open>
  \<^verbatim>\<open>MaxVoteCountForm.__init__\<close>, on the form that \<^verbatim>\<open>super().__init__\<close> has built.
\<close>

definition MaxVoteCountForm_init ::
  "'a data_form_scheme \<Rightarrow> py_error + 'a data_form_scheme" where
  "MaxVoteCountForm_init self =
     (case form_fields self ''has_max_vote_count'' of
        None \<Rightarrow> Inl KeyError
      | Some has_max_vote_count \<Rightarrow>
     (case form_fields self ''max_vote_count'' of
        None \<Rightarrow> Inl KeyError
      | Some max_vote_count \<Rightarrow>
     (case get_field_value self ''has_max_vote_count'' of
        Inl e \<Rightarrow> Inl e
      | Inr toggle \<Rightarrow>
          (let self1 = self\<lparr>form_fields := (form_fields self)(''has_max_vote_count'' \<mapsto>
                         has_max_vote_count(''data-reload-form'' \<mapsto> ABool True))\<rparr>
           in if truthy toggle
              then Inr (self1\<lparr>form_fields := (form_fields self1)(''max_vote_count'' \<mapsto>
                          max_vote_count(''required'' \<mapsto> ABool True))\<rparr>)
              else Inr (self1\<lparr>form_fields := (form_fields self1)(''max_vote_count'' \<mapsto>
                          max_vote_count(''disabled'' \<mapsto> ABool True,
                                         ''value'' \<mapsto> AStr []))\<rparr>)))))"

section \<open>UserFilter\<close>

text \<open>
  A queryset over the rows of one table: each row with its primary key and its
  annotations. The database gives, for a relation name and a row's key, the related
  records. \<^verbatim>\<open>annotate(alias=Count(name))\<close> stores the number of related records of each
  row, an integer annotation.
\<close>

record row =
  pk :: nat
  annotations :: "string \<rightharpoonup> nat"

type_synonym queryset = "row list"

type_synonym database = "string \<Rightarrow> nat \<Rightarrow> nat list"

definition annotate_count :: "database \<Rightarrow> string \<Rightarrow> string \<Rightarrow> queryset \<Rightarrow> queryset" where
  "annotate_count db alias name queryset =
     map (\<lambda>r. r\<lparr>annotations := (annotations r)(alias \<mapsto> length (db name (pk r)))\<rparr>) queryset"

text \<open>\<^verbatim>\<open>int(value)\<close> on a decimal number: the fraction is cut off, towards zero.\<close>

definition py_int :: "rat \<Rightarrow> int" where
  "py_int value = (if 0 \<le> value then \<lfloor>value\<rfloor> else \<lceil>value\<rceil>)"

text \<open>
  \<^verbatim>\<open>filter(alias__gte=value)\<close> on an integer annotation, with the decimal value that a
  \<^verbatim>\<open>NumberFilter\<close> passes: the framework prepares the value for the integer field of the
  annotation with \<^verbatim>\<open>int(value)\<close> and keeps the rows whose annotation is at least the
  prepared value (it refuses an alias that is not there).
\<close>

definition filter_gte :: "string \<Rightarrow> rat \<Rightarrow> queryset \<Rightarrow> py_error + queryset" where
  "filter_gte alias value queryset =
     (if \<exists>r \<in> set queryset. annotations r alias = None then Inl KeyError
      else Inr (filter (\<lambda>r. case annotations r alias of
                               None \<Rightarrow> False
                             | Some c \<Rightarrow> py_int value \<le> int c) queryset))"

text \<open>\<^verbatim>\<open>UserFilter.filter_count_gte\<close>.\<close>

definition filter_count_gte ::
  "database \<Rightarrow> queryset \<Rightarrow> string \<Rightarrow> rat \<Rightarrow> py_error + queryset" where
  "filter_count_gte db queryset name value =
     (let qs = annotate_count db ''name_count'' name queryset
      in filter_gte ''name_count'' value qs)"

section \<open>FileS3UploadField\<close>

text \<open>
  \<^verbatim>\<open>s.split(sep, maxsplit=1)\<close>: an empty separator raises \<^verbatim>\<open>ValueError\<close>; otherwise
  the string is cut at the first occurrence of the separator, or returned whole.
\<close>

fun split_first :: "string \<Rightarrow> string \<Rightarrow> (string \<times> string) option" where
  "split_first sep [] = None"
| "split_first sep (c # cs) =
     (if prefix sep (c # cs) then Some ([], drop (length sep) (c # cs))
      else (case split_first sep cs of
              None \<Rightarrow> None
            | Some (before, after) \<Rightarrow> Some (c # before, after)))"

definition py_split_max1 :: "string \<Rightarrow> string \<Rightarrow> py_error + string list" where
  "py_split_max1 s sep =
     (if sep = [] then Inl ValueError
      else (case split_first sep s of
              None \<Rightarrow> Inr [s]
            | Some (before, after) \<Rightarrow> Inr [before, after]))"

text \<open>\<^verbatim>\<open>xs[i]\<close> for \<open>i \<ge> 0\<close>: \<^verbatim>\<open>IndexError\<close> out of range.\<close>

definition py_index :: "'a list \<Rightarrow> nat \<Rightarrow> py_error + 'a" where
  "py_index xs i = (if i < length xs then Inr (xs ! i) else Inl IndexError)"

text \<open>
  The settings the field reads: \<^verbatim>\<open>AWS_STORAGE_BUCKET_NAME\<close> and, for each destination
  of \<^verbatim>\<open>S3DIRECT_DESTINATIONS\<close>, its dictionary of string options.
\<close>

record settings =
  AWS_STORAGE_BUCKET_NAME :: string
  S3DIRECT_DESTINATIONS :: "string \<rightharpoonup> (string \<rightharpoonup> string)"

record s3_field =
  dest :: string

text \<open>
  \<^verbatim>\<open>FileS3UploadField.clean\<close>. \<^verbatim>\<open>super().clean(value)\<close> is the framework's
  \<^verbatim>\<open>URLField.clean\<close>, a parameter here: the cleaned URL, or a raised
  \<^verbatim>\<open>ValidationError\<close>.
\<close>

definition FileS3UploadField_clean ::
  "settings \<Rightarrow> ('v \<Rightarrow> py_error + string) \<Rightarrow> s3_field \<Rightarrow> 'v \<Rightarrow> py_error + string" where
  "FileS3UploadField_clean settings URLField_clean self value =
     (case URLField_clean value of
        Inl e \<Rightarrow> Inl e
      | Inr url \<Rightarrow>
          if url \<noteq> []
          then
            (let bucket = AWS_STORAGE_BUCKET_NAME settings
             in case S3DIRECT_DESTINATIONS settings (dest self) of
                  None \<Rightarrow> Inl KeyError
                | Some destination \<Rightarrow>
               (case destination ''key'' of
                  None \<Rightarrow> Inl KeyError
                | Some file_dir0 \<Rightarrow>
                    if file_dir0 = [] then Inl IndexError
                    else
                      (let file_dir = (if last file_dir0 \<noteq> CHR ''/''
                                       then file_dir0 @ ''/'' else file_dir0)
                       in case py_split_max1 url bucket of
                            Inl e \<Rightarrow> Inl e
                          | Inr parts \<Rightarrow>
                         (case py_index parts 1 of
                            Inl e \<Rightarrow> Inl e
                          | Inr file_name \<Rightarrow>
                         (case py_split_max1 file_name file_dir of
                            Inl e \<Rightarrow> Inl e
                          | Inr parts2 \<Rightarrow> py_index parts2 1)))))
          else Inr [])"

section \<open>Vocabulary of the statements\<close>

text \<open>
  What a form field hands to \<^verbatim>\<open>cleaned_data\<close>: a datetime field a datetime or
  \<^verbatim>\<open>None\<close>, an integer field an integer or \<^verbatim>\<open>None\<close>.
\<close>

definition time_val :: "int option \<Rightarrow> pyval" where
  "time_val t = (case t of None \<Rightarrow> PNone | Some a \<Rightarrow> PTime a)"

definition int_val :: "int option \<Rightarrow> pyval" where
  "int_val n = (case n of None \<Rightarrow> PNone | Some i \<Rightarrow> PInt i)"

text \<open>The validation errors that \<^verbatim>\<open>QuestionForm\<close> builds, by their codes.\<close>

definition vote_end_too_early :: validation_error where
  "vote_end_too_early =
     ValidationError ''Ensure this time is later than the vote start date.''
       (Some ''vote_end_too_early'') []"

definition max_vote_count_required :: validation_error where
  "max_vote_count_required =
     ValidationError ''This field is required.'' (Some ''max_vote_count_required'') []"

definition max_vote_count_positive :: validation_error where
  "max_vote_count_positive =
     ValidationError ''Ensure this value is positive.'' (Some ''max_vote_count_positive'') []"

definition max_selection_too_small :: validation_error where
  "max_selection_too_small =
     ValidationError ''Ensure this value is greater than or equal to the min selection.''
       (Some ''max_selection_too_small'') []"

definition min_selection_too_big :: "nat \<Rightarrow> validation_error" where
  "min_selection_too_big n =
     ValidationError
       ''Ensure this value is less than or equal to the number of choices (%(len)s).''
       (Some ''max_selection_too_small'') [(''len'', int n)]"

definition total_vote_count_too_big :: validation_error where
  "total_vote_count_too_big =
     ValidationError
       ''Ensure total vote count is less than or equal to the max vote count.''
       (Some ''total_vote_count_too_big'') []"


text \<open>The aggregate error of a form with \<open>n\<close> errors in its tree.\<close>

definition aggregate_error :: "nat \<Rightarrow> validation_error" where
  "aggregate_error n =
     ValidationError ''Please correct the error(s) below (%(len)s total).'' None
       [(''len'', int n)]"

text \<open>The errors of a list that carry a given code.\<close>

definition with_code :: "string \<Rightarrow> validation_error list \<Rightarrow> validation_error list" where
  "with_code c es = filter (\<lambda>e. code e = Some c) es"

section \<open>Example forms\<close>

definition empty_formset :: formset where
  "empty_formset = \<lparr>forms = [], can_delete = True, form_errors = [], non_form_errors = []\<rparr>"

definition blank_form :: form where
  "blank_form = \<lparr>cleaned_data = Map.empty, errors = []\<rparr>"

definition two_choices :: formset where
  "two_choices =
     \<lparr>forms = [blank_form, blank_form], can_delete = True,
      form_errors = [[], []], non_form_errors = []\<rparr>"

text \<open>A question form with the given cleaned data, no error yet and two choices.\<close>

definition question_with :: "(string \<rightharpoonup> pyval) \<Rightarrow> question_form" where
  "question_with cd =
     \<lparr>cleaned_data = cd, errors = [],
      formsets = [(''attachments'', empty_formset), (''q_followers'', empty_formset),
                  (''choices'', two_choices)],
      validate_unique = False\<rparr>"

text \<open>A formset of one form whose follower is missing: a total error count of one.\<close>

definition failing_followers :: formset where
  "failing_followers =
     \<lparr>forms = [blank_form], can_delete = True,
      form_errors = [[(''follower'',
                       [ValidationError ''This field is required.'' (Some ''required'') []])]],
      non_form_errors = []\<rparr>"

definition question_with_failing_followers :: question_form where
  "question_with_failing_followers =
     \<lparr>cleaned_data = Map.empty, errors = [],
      formsets = [(''attachments'', empty_formset), (''q_followers'', failing_followers),
                  (''choices'', two_choices)],
      validate_unique = False\<rparr>"





text \<open>An attachment form after the framework's validation, with an error on the parent key.\<close>

definition required_error :: validation_error where
  "required_error = ValidationError ''This field is required.'' (Some ''required'') []"

definition attachment_form :: formset_form where
  "attachment_form =
     \<lparr>cleaned_data = Map.empty,
      errors = [(''question'', [required_error]), (''file'', [required_error])],
      parent_instance_field = ''question''\<rparr>"

text \<open>
  A bound \<^verbatim>\<open>MaxVoteCountForm\<close> whose checkbox is submitted as checked although its
  initial value is false, and an unbound one whose initial value is false.
\<close>

definition bound_checked_form :: data_form where
  "bound_checked_form =
     \<lparr>is_bound = True, initial = [''has_max_vote_count'' \<mapsto> PBool False],
      bound_value = (\<lambda>name. if name = ''has_max_vote_count'' then PBool True else PNone),
      form_fields = [''has_max_vote_count'' \<mapsto> Map.empty, ''max_vote_count'' \<mapsto> Map.empty]\<rparr>"

definition unbound_unchecked_form :: data_form where
  "unbound_unchecked_form =
     \<lparr>is_bound = False, initial = [''has_max_vote_count'' \<mapsto> PBool False],
      bound_value = (\<lambda>name. PNone),
      form_fields = [''has_max_vote_count'' \<mapsto> Map.empty, ''max_vote_count'' \<mapsto> Map.empty]\<rparr>"

text \<open>The destination directory with its closing slash, as the field's \<^verbatim>\<open>clean\<close> uses it.\<close>

definition with_trailing_slash :: "string \<Rightarrow> string" where
  "with_trailing_slash file_dir =
     (if last file_dir \<noteq> CHR ''/'' then file_dir @ ''/'' else file_dir)"

definition example_settings :: settings where
  "example_settings =
     \<lparr>AWS_STORAGE_BUCKET_NAME = ''bkt'',
      S3DIRECT_DESTINATIONS = [''document'' \<mapsto> [''key'' \<mapsto> ''up'']]\<rparr>"

definition document_field :: s3_field where
  "document_field = \<lparr>dest = ''document''\<rparr>"

text \<open>
  A question form whose total vote count failed the validation of its field (the error
  is recorded, the key is missing from the cleaned data), with a maximum vote count of 3.
\<close>

definition question_without_total :: question_form where
  "question_without_total =
     \<lparr>cleaned_data = [''has_max_vote_count'' \<mapsto> PBool True, ''max_vote_count'' \<mapsto> PInt 3],
      errors = [(''total_vote_count'', [required_error])],
      formsets = [(''attachments'', empty_formset), (''q_followers'', empty_formset),
                  (''choices'', two_choices)],
      validate_unique = False\<rparr>"

text \<open>A user table in which the user 1 has two followers and the user 2 has three.\<close>

definition example_db :: database where
  "example_db name k =
     (if name = ''user_followed'' \<and> k = 1 then [10, 11]
      else if name = ''user_followed'' \<and> k = 2 then [10, 11, 12]
      else [])"

definition example_users :: queryset where
  "example_users =
     [\<lparr>pk = 1, annotations = Map.empty\<rparr>, \<lparr>pk = 2, annotations = Map.empty\<rparr>,
      \<lparr>pk = 3, annotations = Map.empty\<rparr>]"

section \<open>Error dictionaries and the steps of validation\<close>

lemma map_of_errors_extend:
  "map_of (errors_extend k es al) k' =
     (if k' = k then Some ((case map_of al k of None \<Rightarrow> [] | Some v \<Rightarrow> v) @ es)
      else map_of al k')"
  by (induction al) auto

lemma length_errors_extend:
  "length (errors_extend k es al) =
     (if map_of al k = None then Suc (length al) else length al)"
  by (induction al) auto

lemma errors_of_add_error:
  "errors_of (add_error self field e) k =
     (if k = field then errors_of self field @ [e] else errors_of self k)"
  by (simp add: errors_of_def add_error_def map_of_errors_extend)

lemma cleaned_data_add_error:
  "cleaned_data (add_error self field e) = (cleaned_data self)(field := None)"
  by (simp add: add_error_def)

lemma dict_get_add_error:
  "dict_get (cleaned_data (add_error self field e)) k =
     (if k = field then PNone else dict_get (cleaned_data self) k)"
  by (simp add: add_error_def dict_get_def)

lemma formsets_add_error:
  "formsets (add_error self field e) = formsets self"
  by (simp add: add_error_def)

lemma check_vote_end_other:
  assumes "check_vote_end self = Inr s'"
  shows "formsets s' = formsets self"
    and "k \<noteq> ''vote_end'' \<Longrightarrow> errors_of s' k = errors_of self k"
    and "k \<noteq> ''vote_end'' \<Longrightarrow> dict_get (cleaned_data s') k = dict_get (cleaned_data self) k"
  using assms
  by (auto simp: check_vote_end_def Let_def errors_of_add_error dict_get_add_error
      formsets_add_error split: if_splits sum.splits)

lemma check_max_vote_count_other:
  assumes "check_max_vote_count self = Inr s'"
  shows "formsets s' = formsets self"
    and "k \<noteq> ''max_vote_count'' \<Longrightarrow> errors_of s' k = errors_of self k"
    and "k \<noteq> ''max_vote_count'' \<Longrightarrow> dict_get (cleaned_data s') k = dict_get (cleaned_data self) k"
  using assms
  by (auto simp: check_max_vote_count_def Let_def errors_of_add_error dict_get_add_error
      formsets_add_error split: if_splits sum.splits)

lemma check_selection_bounds_other:
  assumes "check_selection_bounds self = Inr s'"
  shows "formsets s' = formsets self"
    and "k \<noteq> ''max_selection'' \<Longrightarrow> k \<noteq> ''min_selection'' \<Longrightarrow> errors_of s' k = errors_of self k"
    and "k \<noteq> ''max_selection'' \<Longrightarrow> k \<noteq> ''min_selection'' \<Longrightarrow>
           dict_get (cleaned_data s') k = dict_get (cleaned_data self) k"
  using assms
  by (auto simp: check_selection_bounds_def Let_def errors_of_add_error dict_get_add_error
      formsets_add_error split: if_splits sum.splits option.splits)

lemma check_total_vote_count_other:
  assumes "check_total_vote_count self = Inr (r, s')"
  shows "formsets s' = formsets self"
    and "k \<noteq> ''max_vote_count'' \<Longrightarrow> errors_of s' k = errors_of self k"
    and "k \<noteq> ''max_vote_count'' \<Longrightarrow> dict_get (cleaned_data s') k = dict_get (cleaned_data self) k"
  using assms
  by (auto simp: check_total_vote_count_def Let_def errors_of_add_error dict_get_add_error
      formsets_add_error split: if_splits sum.splits)

lemma ModelForm_clean_simps:
  "errors_of (ModelForm_clean self) k = errors_of self k"
  "cleaned_data (ModelForm_clean self) = cleaned_data self"
  "formsets (ModelForm_clean self) = formsets self"
  "errors (ModelForm_clean self) = errors self"
  by (simp_all add: ModelForm_clean_def errors_of_def)

lemma clean_checks_InrD:
  assumes "clean_checks self = Inr s4"
  obtains s1 s2 s3 r where
    "check_vote_end (ModelForm_clean self) = Inr s1"
    "check_max_vote_count s1 = Inr s2"
    "check_selection_bounds s2 = Inr s3"
    "check_total_vote_count s3 = Inr (r, s4)"
  using assms by (auto simp: clean_checks_def split: sum.splits)

lemma clean_InrD:
  assumes "clean self = Inr self'"
  obtains s4 where "clean_checks self = Inr s4"
    and "self' = (if count_formset_errors (formsets s4) (length (errors s4)) > 0
                  then add_error s4 NON_FIELD_ERRORS
                         (aggregate_error (count_formset_errors (formsets s4) (length (errors s4))))
                  else s4)"
  using assms by (auto simp: clean_def Let_def aggregate_error_def split: sum.splits if_splits)

lemma clean_field_errors:
  assumes "clean self = Inr self'" and "clean_checks self = Inr s4"
    and "k \<noteq> NON_FIELD_ERRORS"
  shows "errors_of self' k = errors_of s4 k"
  using assms by (auto simp: clean_def Let_def errors_of_add_error split: if_splits)

lemma check_vote_end_own:
  assumes "dict_get (cleaned_data self) ''vote_start'' = time_val s"
    and "dict_get (cleaned_data self) ''vote_end'' = time_val e"
  shows "check_vote_end self =
           Inr (if \<exists>a b. s = Some a \<and> e = Some b \<and> b < a
                then add_error self ''vote_end'' vote_end_too_early else self)"
  using assms
  by (cases s; cases e)
     (auto simp: check_vote_end_def time_val_def vote_end_too_early_def)

lemma check_max_vote_count_own:
  assumes "dict_get (cleaned_data self) ''max_vote_count'' = int_val m"
  shows "check_max_vote_count self =
           Inr (if m = None \<and> truthy (dict_get (cleaned_data self) ''has_max_vote_count'')
                then add_error self ''max_vote_count'' max_vote_count_required
                else if \<exists>i. m = Some i \<and> i < 0
                then add_error self ''max_vote_count'' max_vote_count_positive
                else self)"
  using assms
  by (cases m)
     (auto simp: check_max_vote_count_def int_val_def py_lt_def
        max_vote_count_required_def max_vote_count_positive_def)

lemma check_selection_bounds_own:
  assumes "dict_get (cleaned_data self) ''min_selection'' = int_val a"
    and "dict_get (cleaned_data self) ''max_selection'' = int_val b"
    and "map_of (formsets self) ''choices'' = Some choices"
  shows "check_selection_bounds self =
           Inr (let self1 = (if \<exists>i j. a = Some i \<and> b = Some j \<and> j < i
                             then add_error self ''max_selection'' max_selection_too_small
                             else self)
                in if \<exists>i. a = Some i \<and> int (length (forms choices)) < i
                   then add_error self1 ''min_selection''
                          (min_selection_too_big (length (forms choices)))
                   else self1)"
  using assms
  by (cases a; cases b)
     (auto simp: check_selection_bounds_def int_val_def Let_def
        max_selection_too_small_def min_selection_too_big_def)

text \<open>
  What \<^verbatim>\<open>check_total_vote_count\<close> does on integers: without \<^verbatim>\<open>has_max_vote_count\<close> it
  compares nothing; with it, a maximum other than zero is compared with the total, and
  a maximum of zero or \<^verbatim>\<open>None\<close> is not.
\<close>

lemma check_total_vote_count_own:
  assumes "dict_get (cleaned_data self) ''total_vote_count'' = PInt t"
    and "dict_get (cleaned_data self) ''max_vote_count'' = int_val m"
  shows "check_total_vote_count self =
           (if \<not> truthy (dict_get (cleaned_data self) ''has_max_vote_count'')
            then Inr (PInt t, self)
            else if \<exists>i. m = Some i \<and> i \<noteq> 0 \<and> i < t
            then Inr (PNone, add_error self ''max_vote_count'' total_vote_count_too_big)
            else Inr (PNone, self))"
  using assms
  by (cases m)
     (auto simp: check_total_vote_count_def int_val_def Let_def total_vote_count_too_big_def)

lemma check_total_vote_count_without_max:
  assumes "\<not> truthy (dict_get (cleaned_data self) ''has_max_vote_count'')"
  shows "check_total_vote_count self =
           Inr (dict_get (cleaned_data self) ''total_vote_count'', self)"
  using assms by (simp add: check_total_vote_count_def)

lemma clean_keeps_checked_errors:
  assumes "clean self = Inr self'" and "k \<noteq> NON_FIELD_ERRORS"
  obtains s1 s2 s3 s4 r where
    "check_vote_end (ModelForm_clean self) = Inr s1"
    "check_max_vote_count s1 = Inr s2"
    "check_selection_bounds s2 = Inr s3"
    "check_total_vote_count s3 = Inr (r, s4)"
    "errors_of self' k = errors_of s4 k"
proof -
  from assms(1) obtain s4 where s4: "clean_checks self = Inr s4" by (rule clean_InrD)
  from s4 obtain s1 s2 s3 r where
    "check_vote_end (ModelForm_clean self) = Inr s1"
    "check_max_vote_count s1 = Inr s2"
    "check_selection_bounds s2 = Inr s3"
    "check_total_vote_count s3 = Inr (r, s4)"
    by (rule clean_checks_InrD)
  moreover have "errors_of self' k = errors_of s4 k"
    by (rule clean_field_errors [OF assms(1) s4 assms(2)])
  ultimately show thesis by (rule that)
qed

lemma count_formset_errors_sum:
  "count_formset_errors fss n = n + sum_list (map (\<lambda>entry. total_error_count (snd entry)) fss)"
  unfolding count_formset_errors_def
  by (induction fss arbitrary: n) (auto simp: case_prod_beta)

lemma sum_list_pos_iff:
  "0 < sum_list (map f xs) \<longleftrightarrow> (\<exists>x \<in> set xs. 0 < (f x :: nat))"
  by (induction xs) auto

section \<open>The aggregate error of the whole form\<close>

lemma clean_checks_formsets:
  assumes "clean_checks self = Inr s4"
  shows "formsets s4 = formsets self"
proof -
  from assms obtain s1 s2 s3 r where
    1: "check_vote_end (ModelForm_clean self) = Inr s1" and
    2: "check_max_vote_count s1 = Inr s2" and
    3: "check_selection_bounds s2 = Inr s3" and
    4: "check_total_vote_count s3 = Inr (r, s4)"
    by (rule clean_checks_InrD)
  show ?thesis
    using check_vote_end_other(1) [OF 1] check_max_vote_count_other(1) [OF 2]
      check_selection_bounds_other(1) [OF 3] check_total_vote_count_other(1) [OF 4]
    by (simp add: ModelForm_clean_simps)
qed

text \<open>
  When \<^verbatim>\<open>clean\<close> returns: with well-typed cleaned data, a total vote count that is
  present and a formset \<^verbatim>\<open>choices\<close>, every step returns.
\<close>

lemma clean_checks_returns:
  assumes vs: "dict_get (cleaned_data self) ''vote_start'' = time_val s"
    and ve: "dict_get (cleaned_data self) ''vote_end'' = time_val e"
    and mx: "dict_get (cleaned_data self) ''max_vote_count'' = int_val m"
    and mn: "dict_get (cleaned_data self) ''min_selection'' = int_val a"
    and ms: "dict_get (cleaned_data self) ''max_selection'' = int_val b"
    and tt: "dict_get (cleaned_data self) ''total_vote_count'' = PInt t"
    and ch: "map_of (formsets self) ''choices'' = Some choices"
  shows "\<exists>s4. clean_checks self = Inr s4"
proof -
  obtain s1 where 1: "check_vote_end (ModelForm_clean self) = Inr s1"
    using check_vote_end_own [of "ModelForm_clean self" s e] vs ve
    by (simp add: ModelForm_clean_simps)
  have k1: "dict_get (cleaned_data s1) k = dict_get (cleaned_data self) k"
    if "k \<noteq> ''vote_end''" for k
    using check_vote_end_other(3) [OF 1 that] by (simp add: ModelForm_clean_simps)
  have f1: "formsets s1 = formsets self"
    using check_vote_end_other(1) [OF 1] by (simp add: ModelForm_clean_simps)
  have mx1: "dict_get (cleaned_data s1) ''max_vote_count'' = int_val m"
    using k1 [of "''max_vote_count''"] mx by simp
  obtain s2 where 2: "check_max_vote_count s1 = Inr s2"
    using check_max_vote_count_own [OF mx1] by simp
  have k2: "dict_get (cleaned_data s2) k = dict_get (cleaned_data self) k"
    if "k \<noteq> ''vote_end''" "k \<noteq> ''max_vote_count''" for k
    using check_max_vote_count_other(3) [OF 2 that(2)] k1 [OF that(1)] by simp
  have f2: "formsets s2 = formsets self"
    using check_max_vote_count_other(1) [OF 2] f1 by simp
  obtain m' where mx2: "dict_get (cleaned_data s2) ''max_vote_count'' = int_val m'"
  proof -
    have "dict_get (cleaned_data s2) ''max_vote_count'' = int_val m
          \<or> dict_get (cleaned_data s2) ''max_vote_count'' = int_val None"
      using 2 check_max_vote_count_own [OF mx1] mx1
      by (auto simp: dict_get_add_error int_val_def split: if_splits)
    then show thesis using that by blast
  qed
  have "check_selection_bounds s2 =
           Inr (let self1 = (if \<exists>i j. a = Some i \<and> b = Some j \<and> j < i
                             then add_error s2 ''max_selection'' max_selection_too_small
                             else s2)
                in if \<exists>i. a = Some i \<and> int (length (forms choices)) < i
                   then add_error self1 ''min_selection''
                          (min_selection_too_big (length (forms choices)))
                   else self1)"
    by (rule check_selection_bounds_own)
       (simp_all add: k2 [of "''min_selection''"] k2 [of "''max_selection''"] mn ms f2 ch)
  then obtain s3 where 3: "check_selection_bounds s2 = Inr s3" by simp
  have k3: "dict_get (cleaned_data s3) k = dict_get (cleaned_data s2) k"
    if "k \<noteq> ''max_selection''" "k \<noteq> ''min_selection''" for k
    using check_selection_bounds_other(3) [OF 3 that] .
  have tt3: "dict_get (cleaned_data s3) ''total_vote_count'' = PInt t"
    using k3 [of "''total_vote_count''"] k2 [of "''total_vote_count''"] tt by simp
  have mx3: "dict_get (cleaned_data s3) ''max_vote_count'' = int_val m'"
    using k3 [of "''max_vote_count''"] mx2 by simp
  obtain r s4 where 4: "check_total_vote_count s3 = Inr (r, s4)"
    using check_total_vote_count_own [OF tt3 mx3] by (auto split: if_splits)
  show ?thesis
    using 1 2 3 4 by (simp add: clean_checks_def)
qed

lemma clean_returns:
  assumes "dict_get (cleaned_data self) ''vote_start'' = time_val s"
    and "dict_get (cleaned_data self) ''vote_end'' = time_val e"
    and "dict_get (cleaned_data self) ''max_vote_count'' = int_val m"
    and "dict_get (cleaned_data self) ''min_selection'' = int_val a"
    and "dict_get (cleaned_data self) ''max_selection'' = int_val b"
    and "dict_get (cleaned_data self) ''total_vote_count'' = PInt t"
    and "map_of (formsets self) ''choices'' = Some choices"
  shows "\<exists>self'. clean self = Inr self'"
proof -
  from clean_checks_returns [OF assms] obtain s4 where "clean_checks self = Inr s4" ..
  then show ?thesis by (simp add: clean_def Let_def)
qed

text \<open>
  When \<^verbatim>\<open>clean\<close> returns, let \<open>checked\<close> be the form after the four checks and \<open>n\<close>
  the number of keys of its error dictionary plus the total error counts of all its
  nested formsets (which are those of the form \<^verbatim>\<open>clean\<close> started from). Then the
  non-field errors of the result are those of \<open>checked\<close>, followed by the aggregate
  error with the count \<open>n\<close> when \<open>n\<close> is positive and by nothing otherwise; an aggregate
  error is present exactly when \<open>checked\<close> has an error or some nested formset has a
  positive total error count; and the errors of every field are those of \<open>checked\<close>.
\<close>

lemma aggregate_error_when_clean_returns:
  assumes "clean self = Inr self'"
  shows "\<exists>checked n. clean_checks self = Inr checked
           \<and> formsets checked = formsets self
           \<and> n = length (errors checked)
                 + sum_list (map (\<lambda>entry. total_error_count (snd entry)) (formsets self))
           \<and> errors_of self' NON_FIELD_ERRORS =
               errors_of checked NON_FIELD_ERRORS @ (if 0 < n then [aggregate_error n] else [])
           \<and> ((\<exists>k. aggregate_error k \<in> set (errors_of self' NON_FIELD_ERRORS)) \<longleftrightarrow>
                (errors checked \<noteq> []
                 \<or> (\<exists>entry \<in> set (formsets self). 0 < total_error_count (snd entry))))
           \<and> (\<forall>field. field \<noteq> NON_FIELD_ERRORS \<longrightarrow>
                errors_of self' field = errors_of checked field)"
proof -
  from assms obtain checked where
    c: "clean_checks self = Inr checked" and
    r: "self' = (if count_formset_errors (formsets checked) (length (errors checked)) > 0
                 then add_error checked NON_FIELD_ERRORS
                        (aggregate_error
                           (count_formset_errors (formsets checked) (length (errors checked))))
                 else checked)"
    by (rule clean_InrD)
  define n where "n = length (errors checked)
                 + sum_list (map (\<lambda>entry. total_error_count (snd entry)) (formsets self))"
  have fs: "formsets checked = formsets self"
    by (rule clean_checks_formsets [OF c])
  have cnt: "count_formset_errors (formsets checked) (length (errors checked)) = n"
    by (simp add: count_formset_errors_sum fs n_def)
  have nfe: "errors_of self' NON_FIELD_ERRORS =
               errors_of checked NON_FIELD_ERRORS @ (if 0 < n then [aggregate_error n] else [])"
    using r by (simp add: cnt errors_of_add_error)
  have pos: "0 < n \<longleftrightarrow>
               (errors checked \<noteq> []
                \<or> (\<exists>entry \<in> set (formsets self). 0 < total_error_count (snd entry)))"
    unfolding n_def by (simp add: sum_list_pos_iff)
  have none: "errors_of checked NON_FIELD_ERRORS = []" if "\<not> 0 < n"
  proof -
    from that have "errors checked = []" by (simp add: n_def)
    then show ?thesis by (simp add: errors_of_def)
  qed
  have present: "(\<exists>k. aggregate_error k \<in> set (errors_of self' NON_FIELD_ERRORS)) \<longleftrightarrow> 0 < n"
  proof (cases "0 < n")
    case True
    then have "aggregate_error n \<in> set (errors_of self' NON_FIELD_ERRORS)"
      by (simp add: nfe)
    with True show ?thesis by blast
  next
    case False
    then show ?thesis using none [OF False] by (simp add: nfe)
  qed
  have others: "\<forall>field. field \<noteq> NON_FIELD_ERRORS \<longrightarrow>
                  errors_of self' field = errors_of checked field"
    using clean_field_errors [OF assms c] by blast
  have iff: "(\<exists>k. aggregate_error k \<in> set (errors_of self' NON_FIELD_ERRORS)) \<longleftrightarrow>
               (errors checked \<noteq> []
                \<or> (\<exists>entry \<in> set (formsets self). 0 < total_error_count (snd entry)))"
    using present pos by (rule trans)
  show ?thesis
    apply (rule exI [of _ checked])
    apply (rule exI [of _ n])
    apply (intro conjI)
         apply (rule c)
        apply (rule fs)
       apply (rule n_def)
      apply (rule nfe)
     apply (rule iff)
    apply (rule others)
    done
qed

lemma aggregate_error_example:
  "\<exists>self'. clean question_with_failing_followers = Inr self'
      \<and> errors_of self' NON_FIELD_ERRORS = [aggregate_error 1]"
proof -
  let ?q = "question_with_failing_followers"
  have checks: "clean_checks ?q = Inr (?q\<lparr>validate_unique := True\<rparr>)"
    by (simp add: clean_checks_def ModelForm_clean_def check_vote_end_def
        check_max_vote_count_def check_selection_bounds_def check_total_vote_count_def
        question_with_failing_followers_def dict_get_def Let_def)
  then have "\<exists>self'. clean ?q = Inr self'"
    by (simp add: clean_def Let_def)
  then obtain self' where cl: "clean ?q = Inr self'" ..
  from aggregate_error_when_clean_returns [OF cl] obtain checked n where
    c: "clean_checks ?q = Inr checked" and
    n: "n = length (errors checked)
          + sum_list (map (\<lambda>entry. total_error_count (snd entry)) (formsets ?q))" and
    nfe: "errors_of self' NON_FIELD_ERRORS =
            errors_of checked NON_FIELD_ERRORS @ (if 0 < n then [aggregate_error n] else [])"
    by blast
  from c checks have ch: "checked = ?q\<lparr>validate_unique := True\<rparr>" by simp
  have n1: "n = 1"
    unfolding n ch
    by (simp add: question_with_failing_followers_def total_error_count_def
        empty_formset_def failing_followers_def two_choices_def)
  have "errors_of checked NON_FIELD_ERRORS = []"
    unfolding ch by (simp add: errors_of_def question_with_failing_followers_def)
  with nfe n1 have "errors_of self' NON_FIELD_ERRORS = [aggregate_error 1]" by simp
  with cl show ?thesis by blast
qed

text \<open>
  C1 on a form whose total vote count failed its own validation, under a maximum vote
  count of 3. The form has an error in its tree, so that the count of the full form
  validation would be 1; yet \<^verbatim>\<open>check_total_vote_count\<close> compares \<^verbatim>\<open>None\<close> with the
  maximum, which raises, and \<^verbatim>\<open>clean\<close> ends with \<^verbatim>\<open>TypeError\<close> before it counts the
  errors: no aggregate error is added.
\<close>

theorem clean_raises_before_aggregate:
  "errors question_without_total = [(''total_vote_count'', [required_error])]
   \<and> truthy (dict_get (cleaned_data question_without_total) ''has_max_vote_count'')
   \<and> dict_get (cleaned_data question_without_total) ''max_vote_count'' = PInt 3
   \<and> dict_get (cleaned_data question_without_total) ''total_vote_count'' = PNone
   \<and> count_formset_errors (formsets question_without_total)
         (length (errors question_without_total)) = 1
   \<and> check_total_vote_count question_without_total = Inl TypeError
   \<and> clean question_without_total = Inl TypeError"
  by (simp add: clean_def clean_checks_def ModelForm_clean_def check_vote_end_def
      check_max_vote_count_def check_selection_bounds_def check_total_vote_count_def
      question_without_total_def dict_get_def add_error_def Let_def two_choices_def py_lt_def
      count_formset_errors_def total_error_count_def empty_formset_def)

section \<open>Duplicate followers\<close>




section \<open>The end of voting against its start\<close>

text \<open>
  C3. With a start \<open>s\<close> and an end \<open>e\<close> of voting in the cleaned data (each a datetime
  or \<^verbatim>\<open>None\<close>), \<^verbatim>\<open>check_vote_end\<close> adds the error \<^verbatim>\<open>vote_end_too_early\<close> to
  \<^verbatim>\<open>vote_end\<close> exactly when both are present and the end is strictly before the start,
  and does nothing otherwise (one of them absent, or the end at or after the start); and
  when \<^verbatim>\<open>clean\<close> returns, the errors of \<^verbatim>\<open>vote_end\<close> are the earlier ones followed by
  that error in that case alone.
\<close>

theorem vote_end_error_iff:
  assumes "dict_get (cleaned_data self) ''vote_start'' = time_val s"
    and "dict_get (cleaned_data self) ''vote_end'' = time_val e"
  shows "check_vote_end self =
           Inr (if \<exists>a b. s = Some a \<and> e = Some b \<and> b < a
                then add_error self ''vote_end'' vote_end_too_early else self)
         \<and> (\<forall>self'. clean self = Inr self' \<longrightarrow>
              errors_of self' ''vote_end'' =
                errors_of self ''vote_end'' @
                  (if \<exists>a b. s = Some a \<and> e = Some b \<and> b < a
                   then [vote_end_too_early] else []))"
proof (intro conjI allI impI)
  show "check_vote_end self =
           Inr (if \<exists>a b. s = Some a \<and> e = Some b \<and> b < a
                then add_error self ''vote_end'' vote_end_too_early else self)"
    by (rule check_vote_end_own [OF assms])
next
  fix self'
  assume cl: "clean self = Inr self'"
  have nf: "''vote_end'' \<noteq> NON_FIELD_ERRORS" by (simp add: NON_FIELD_ERRORS_def)
  from cl nf obtain s1 s2 s3 s4 r where
    1: "check_vote_end (ModelForm_clean self) = Inr s1" and
    2: "check_max_vote_count s1 = Inr s2" and
    3: "check_selection_bounds s2 = Inr s3" and
    4: "check_total_vote_count s3 = Inr (r, s4)" and
    5: "errors_of self' ''vote_end'' = errors_of s4 ''vote_end''"
    by (rule clean_keeps_checked_errors)
  note 5
  also have "errors_of s4 ''vote_end'' = errors_of s3 ''vote_end''"
    by (rule check_total_vote_count_other(2) [OF 4]) simp
  also have "\<dots> = errors_of s2 ''vote_end''"
    by (rule check_selection_bounds_other(2) [OF 3]) simp_all
  also have "\<dots> = errors_of s1 ''vote_end''"
    by (rule check_max_vote_count_other(2) [OF 2]) simp
  also have "\<dots> = errors_of self ''vote_end'' @
             (if \<exists>a b. s = Some a \<and> e = Some b \<and> b < a then [vote_end_too_early] else [])"
  proof -
    have "check_vote_end (ModelForm_clean self) =
           Inr (if \<exists>a b. s = Some a \<and> e = Some b \<and> b < a
                then add_error (ModelForm_clean self) ''vote_end'' vote_end_too_early
                else ModelForm_clean self)"
      by (rule check_vote_end_own) (simp_all add: ModelForm_clean_simps assms)
    with 1 show ?thesis
      by (auto simp: errors_of_add_error ModelForm_clean_simps split: if_splits)
  qed
  finally show "errors_of self' ''vote_end'' =
           errors_of self ''vote_end'' @
             (if \<exists>a b. s = Some a \<and> e = Some b \<and> b < a then [vote_end_too_early] else [])" .
qed

theorem vote_end_error_iff_witness:
  "dict_get (cleaned_data (question_with [''vote_start'' \<mapsto> PTime 10, ''vote_end'' \<mapsto> PTime 5]))
     ''vote_start'' = time_val (Some 10)
   \<and> dict_get (cleaned_data (question_with [''vote_start'' \<mapsto> PTime 10, ''vote_end'' \<mapsto> PTime 5]))
     ''vote_end'' = time_val (Some 5)
   \<and> (\<exists>self'. clean (question_with [''vote_start'' \<mapsto> PTime 10, ''vote_end'' \<mapsto> PTime 5])
                = Inr self'
        \<and> errors_of self' ''vote_end'' = [vote_end_too_early])"
proof -
  let ?q = "question_with [''vote_start'' \<mapsto> PTime 10, ''vote_end'' \<mapsto> PTime 5]"
  have h1: "dict_get (cleaned_data ?q) ''vote_start'' = time_val (Some 10)"
    by (simp add: question_with_def dict_get_def time_val_def)
  have h2: "dict_get (cleaned_data ?q) ''vote_end'' = time_val (Some 5)"
    by (simp add: question_with_def dict_get_def time_val_def)
  have h3: "\<exists>self'. clean ?q = Inr self'"
    by (simp add: clean_def clean_checks_def ModelForm_clean_def check_vote_end_def
        check_max_vote_count_def check_selection_bounds_def check_total_vote_count_def
        question_with_def dict_get_def add_error_def Let_def two_choices_def)
  then obtain self' where cl: "clean ?q = Inr self'" ..
  from vote_end_error_iff [OF h1 h2] cl
  have "errors_of self' ''vote_end'' = errors_of ?q ''vote_end'' @ [vote_end_too_early]"
    by simp
  then have "errors_of self' ''vote_end'' = [vote_end_too_early]"
    by (simp add: errors_of_def question_with_def)
  with h1 h2 cl show ?thesis by blast
qed

section \<open>The parent key of a child form\<close>

lemma map_of_errors_pop:
  "map_of (errors_pop k d) k' = (if k' = k then None else map_of d k')"
  unfolding errors_pop_def by (induction d) auto

text \<open>
  C4. After \<^verbatim>\<open>FormSetForm.full_clean\<close>, whatever the framework's validation
  \<^verbatim>\<open>super().full_clean()\<close> has produced: no error is listed under
  \<^verbatim>\<open>parent_instance_field\<close>; every other key of the error dictionary has the entry that
  the base validation gave it, in the same order; and the cleaned data are untouched.
\<close>

theorem parent_key_error_suppressed:
  "errors_of (FormSetForm_full_clean super_full_clean self)
       (parent_instance_field (super_full_clean self)) = []
   \<and> (\<forall>k. k \<noteq> parent_instance_field (super_full_clean self) \<longrightarrow>
          map_of (errors (FormSetForm_full_clean super_full_clean self)) k =
          map_of (errors (super_full_clean self)) k)
   \<and> filter (\<lambda>entry. fst entry \<noteq> parent_instance_field (super_full_clean self))
        (errors (FormSetForm_full_clean super_full_clean self)) =
      filter (\<lambda>entry. fst entry \<noteq> parent_instance_field (super_full_clean self))
        (errors (super_full_clean self))
   \<and> cleaned_data (FormSetForm_full_clean super_full_clean self) =
      cleaned_data (super_full_clean self)
   \<and> parent_instance_field (FormSetForm_full_clean super_full_clean self) =
      parent_instance_field (super_full_clean self)"
proof (intro conjI allI impI)
  show "errors_of (FormSetForm_full_clean super_full_clean self)
          (parent_instance_field (super_full_clean self)) = []"
    by (auto simp: FormSetForm_full_clean_def Let_def errors_of_def map_of_errors_pop
        split: option.splits)
next
  fix k
  assume "k \<noteq> parent_instance_field (super_full_clean self)"
  then show "map_of (errors (FormSetForm_full_clean super_full_clean self)) k =
             map_of (errors (super_full_clean self)) k"
    by (simp add: FormSetForm_full_clean_def Let_def map_of_errors_pop)
next
  show "filter (\<lambda>entry. fst entry \<noteq> parent_instance_field (super_full_clean self))
          (errors (FormSetForm_full_clean super_full_clean self)) =
        filter (\<lambda>entry. fst entry \<noteq> parent_instance_field (super_full_clean self))
          (errors (super_full_clean self))"
    by (simp add: FormSetForm_full_clean_def Let_def errors_pop_def)
next
  show "cleaned_data (FormSetForm_full_clean super_full_clean self) =
        cleaned_data (super_full_clean self)"
    by (simp add: FormSetForm_full_clean_def Let_def)
next
  show "parent_instance_field (FormSetForm_full_clean super_full_clean self) =
        parent_instance_field (super_full_clean self)"
    by (simp add: FormSetForm_full_clean_def Let_def)
qed

theorem parent_key_error_suppressed_witness:
  "errors_of (FormSetForm_full_clean (\<lambda>form. form) attachment_form) ''question'' = []
   \<and> map_of (errors (FormSetForm_full_clean (\<lambda>form. form) attachment_form)) ''file'' =
       Some [required_error]"
proof -
  have p: "parent_instance_field attachment_form = ''question''"
    by (simp add: attachment_form_def)
  have f: "map_of (errors attachment_form) ''file'' = Some [required_error]"
    by (simp add: attachment_form_def)
  from parent_key_error_suppressed [of "\<lambda>form. form" attachment_form]
  have "errors_of (FormSetForm_full_clean (\<lambda>form. form) attachment_form) ''question'' = []"
    and "map_of (errors (FormSetForm_full_clean (\<lambda>form. form) attachment_form)) ''file'' =
         map_of (errors attachment_form) ''file''"
    by (simp_all add: p)
  with f show ?thesis by simp
qed

section \<open>The selection bounds\<close>

text \<open>
  C5, as the code has it. With selection bounds \<open>a\<close> (minimum) and \<open>b\<close> (maximum) in
  the cleaned data, each an integer or \<^verbatim>\<open>None\<close>, and the formset \<^verbatim>\<open>choices\<close>:
  \<^verbatim>\<open>check_selection_bounds\<close> adds \<^verbatim>\<open>max_selection_too_small\<close> to \<^verbatim>\<open>max_selection\<close>
  exactly when both bounds are present and the minimum is above the maximum, and adds
  an error to \<^verbatim>\<open>min_selection\<close> exactly when the minimum is present and above the number
  of choice forms; the maximum is not compared with the number of choices. When
  \<^verbatim>\<open>clean\<close> returns, the errors of the two fields are the earlier ones followed by these.
\<close>

theorem selection_bounds_errors:
  assumes "dict_get (cleaned_data self) ''min_selection'' = int_val a"
    and "dict_get (cleaned_data self) ''max_selection'' = int_val b"
    and "map_of (formsets self) ''choices'' = Some choices"
  shows "check_selection_bounds self =
           Inr (let self1 = (if \<exists>i j. a = Some i \<and> b = Some j \<and> j < i
                             then add_error self ''max_selection'' max_selection_too_small
                             else self)
                in if \<exists>i. a = Some i \<and> int (length (forms choices)) < i
                   then add_error self1 ''min_selection''
                          (min_selection_too_big (length (forms choices)))
                   else self1)
         \<and> (\<forall>self'. clean self = Inr self' \<longrightarrow>
              errors_of self' ''max_selection'' =
                errors_of self ''max_selection'' @
                  (if \<exists>i j. a = Some i \<and> b = Some j \<and> j < i
                   then [max_selection_too_small] else [])
              \<and> errors_of self' ''min_selection'' =
                errors_of self ''min_selection'' @
                  (if \<exists>i. a = Some i \<and> int (length (forms choices)) < i
                   then [min_selection_too_big (length (forms choices))] else []))"
proof (intro conjI allI impI)
  show "check_selection_bounds self =
           Inr (let self1 = (if \<exists>i j. a = Some i \<and> b = Some j \<and> j < i
                             then add_error self ''max_selection'' max_selection_too_small
                             else self)
                in if \<exists>i. a = Some i \<and> int (length (forms choices)) < i
                   then add_error self1 ''min_selection''
                          (min_selection_too_big (length (forms choices)))
                   else self1)"
    by (rule check_selection_bounds_own [OF assms])
next
  fix self'
  assume cl: "clean self = Inr self'"
  have nf: "''max_selection'' \<noteq> NON_FIELD_ERRORS" "''min_selection'' \<noteq> NON_FIELD_ERRORS"
    by (simp_all add: NON_FIELD_ERRORS_def)
  from cl nf(1) obtain s1 s2 s3 s4 r where
    1: "check_vote_end (ModelForm_clean self) = Inr s1" and
    2: "check_max_vote_count s1 = Inr s2" and
    3: "check_selection_bounds s2 = Inr s3" and
    4: "check_total_vote_count s3 = Inr (r, s4)" and
    5: "errors_of self' ''max_selection'' = errors_of s4 ''max_selection''"
    by (rule clean_keeps_checked_errors)
  from cl have s4: "clean_checks self = Inr s4"
    using 1 2 3 4 by (simp add: clean_checks_def)
  have 6: "errors_of self' ''min_selection'' = errors_of s4 ''min_selection''"
    by (rule clean_field_errors [OF cl s4 nf(2)])
  have pre: "errors_of s2 k = errors_of self k"
            "dict_get (cleaned_data s2) k = dict_get (cleaned_data self) k"
    if "k = ''max_selection'' \<or> k = ''min_selection''" for k
    using that check_vote_end_other(2,3) [OF 1, of k] check_max_vote_count_other(2,3) [OF 2, of k]
    by (auto simp: ModelForm_clean_simps)
  have fs: "formsets s2 = formsets self"
    using check_vote_end_other(1) [OF 1] check_max_vote_count_other(1) [OF 2]
    by (simp add: ModelForm_clean_simps)
  have own: "check_selection_bounds s2 =
           Inr (let self1 = (if \<exists>i j. a = Some i \<and> b = Some j \<and> j < i
                             then add_error s2 ''max_selection'' max_selection_too_small
                             else s2)
                in if \<exists>i. a = Some i \<and> int (length (forms choices)) < i
                   then add_error self1 ''min_selection''
                          (min_selection_too_big (length (forms choices)))
                   else self1)"
    by (rule check_selection_bounds_own) (simp_all add: pre fs assms)
  have post: "errors_of s4 k = errors_of s3 k"
    if "k = ''max_selection'' \<or> k = ''min_selection''" for k
    using that check_total_vote_count_other(2) [OF 4, of k] by auto
  show "errors_of self' ''max_selection'' =
          errors_of self ''max_selection'' @
            (if \<exists>i j. a = Some i \<and> b = Some j \<and> j < i then [max_selection_too_small] else [])"
    using own 3 by (auto simp: 5 post Let_def errors_of_add_error pre split: if_splits)
  show "errors_of self' ''min_selection'' =
          errors_of self ''min_selection'' @
            (if \<exists>i. a = Some i \<and> int (length (forms choices)) < i
             then [min_selection_too_big (length (forms choices))] else [])"
    using own 3 by (auto simp: 6 post Let_def errors_of_add_error pre split: if_splits)
qed

theorem selection_bounds_errors_witness:
  "dict_get (cleaned_data (question_with [''min_selection'' \<mapsto> PInt 3, ''max_selection'' \<mapsto> PInt 1]))
     ''min_selection'' = int_val (Some 3)
   \<and> dict_get (cleaned_data (question_with [''min_selection'' \<mapsto> PInt 3, ''max_selection'' \<mapsto> PInt 1]))
     ''max_selection'' = int_val (Some 1)
   \<and> map_of (formsets (question_with [''min_selection'' \<mapsto> PInt 3, ''max_selection'' \<mapsto> PInt 1]))
     ''choices'' = Some two_choices
   \<and> (\<exists>self'. clean (question_with [''min_selection'' \<mapsto> PInt 3, ''max_selection'' \<mapsto> PInt 1])
                = Inr self'
        \<and> errors_of self' ''max_selection'' = [max_selection_too_small]
        \<and> errors_of self' ''min_selection'' = [min_selection_too_big 2])"
proof -
  let ?q = "question_with [''min_selection'' \<mapsto> PInt 3, ''max_selection'' \<mapsto> PInt 1]"
  have h1: "dict_get (cleaned_data ?q) ''min_selection'' = int_val (Some 3)"
    by (simp add: question_with_def dict_get_def int_val_def)
  have h2: "dict_get (cleaned_data ?q) ''max_selection'' = int_val (Some 1)"
    by (simp add: question_with_def dict_get_def int_val_def)
  have h3: "map_of (formsets ?q) ''choices'' = Some two_choices"
    by (simp add: question_with_def)
  have h4: "\<exists>self'. clean ?q = Inr self'"
    by (simp add: clean_def clean_checks_def ModelForm_clean_def check_vote_end_def
        check_max_vote_count_def check_selection_bounds_def check_total_vote_count_def
        question_with_def dict_get_def add_error_def Let_def two_choices_def)
  then obtain self' where cl: "clean ?q = Inr self'" ..
  have e: "errors_of ?q ''max_selection'' = []" "errors_of ?q ''min_selection'' = []"
    by (simp_all add: errors_of_def question_with_def)
  have n: "length (forms two_choices) = 2"
    by (simp add: two_choices_def)
  from selection_bounds_errors [OF h1 h2 h3] cl
  have "errors_of self' ''max_selection'' = [max_selection_too_small]
        \<and> errors_of self' ''min_selection'' = [min_selection_too_big 2]"
    by (simp add: e n)
  with h1 h2 h3 cl show ?thesis by blast
qed

text \<open>
  A maximum of five selections with two choices, and a minimum of one: the maximum
  exceeds the number of choices, and neither \<^verbatim>\<open>check_selection_bounds\<close> nor \<^verbatim>\<open>clean\<close>
  adds an error.
\<close>

theorem selection_bounds_max_unchecked_counterexample:
  "dict_get (cleaned_data (question_with [''min_selection'' \<mapsto> PInt 1, ''max_selection'' \<mapsto> PInt 5]))
     ''max_selection'' = PInt 5
   \<and> map_of (formsets (question_with [''min_selection'' \<mapsto> PInt 1, ''max_selection'' \<mapsto> PInt 5]))
     ''choices'' = Some two_choices
   \<and> int (length (forms two_choices)) < 5
   \<and> check_selection_bounds (question_with [''min_selection'' \<mapsto> PInt 1, ''max_selection'' \<mapsto> PInt 5])
       = Inr (question_with [''min_selection'' \<mapsto> PInt 1, ''max_selection'' \<mapsto> PInt 5])
   \<and> clean (question_with [''min_selection'' \<mapsto> PInt 1, ''max_selection'' \<mapsto> PInt 5])
       = Inr ((question_with [''min_selection'' \<mapsto> PInt 1, ''max_selection'' \<mapsto> PInt 5])
                \<lparr>validate_unique := True\<rparr>)
   \<and> errors (question_with [''min_selection'' \<mapsto> PInt 1, ''max_selection'' \<mapsto> PInt 5]) = []"
  by (simp add: clean_def clean_checks_def ModelForm_clean_def check_vote_end_def
      check_max_vote_count_def check_selection_bounds_def check_total_vote_count_def
      question_with_def dict_get_def add_error_def Let_def two_choices_def
      count_formset_errors_def total_error_count_def empty_formset_def)

section \<open>The total vote count against the maximum\<close>

text \<open>
  C6 at a maximum of zero. \<^verbatim>\<open>has_max_vote_count\<close> is true, the maximum vote count is 0
  and the total vote count is 5: the total exceeds the maximum, and
  \<^verbatim>\<open>check_total_vote_count\<close> returns the form as it was, so that \<^verbatim>\<open>clean\<close> ends with no
  error at all. The test \<^verbatim>\<open>if max_vote_count and ...\<close> takes the integer 0 for an
  absent value.
\<close>

theorem total_vote_count_zero_max_unchecked:
  "truthy (dict_get (cleaned_data (question_with
       [''has_max_vote_count'' \<mapsto> PBool True, ''max_vote_count'' \<mapsto> PInt 0,
        ''total_vote_count'' \<mapsto> PInt 5])) ''has_max_vote_count'')
   \<and> py_gt (dict_get (cleaned_data (question_with
       [''has_max_vote_count'' \<mapsto> PBool True, ''max_vote_count'' \<mapsto> PInt 0,
        ''total_vote_count'' \<mapsto> PInt 5])) ''total_vote_count'')
        (dict_get (cleaned_data (question_with
       [''has_max_vote_count'' \<mapsto> PBool True, ''max_vote_count'' \<mapsto> PInt 0,
        ''total_vote_count'' \<mapsto> PInt 5])) ''max_vote_count'') = Inr True
   \<and> check_total_vote_count (question_with
       [''has_max_vote_count'' \<mapsto> PBool True, ''max_vote_count'' \<mapsto> PInt 0,
        ''total_vote_count'' \<mapsto> PInt 5])
       = Inr (PNone, question_with
       [''has_max_vote_count'' \<mapsto> PBool True, ''max_vote_count'' \<mapsto> PInt 0,
        ''total_vote_count'' \<mapsto> PInt 5])
   \<and> clean (question_with
       [''has_max_vote_count'' \<mapsto> PBool True, ''max_vote_count'' \<mapsto> PInt 0,
        ''total_vote_count'' \<mapsto> PInt 5])
       = Inr ((question_with
       [''has_max_vote_count'' \<mapsto> PBool True, ''max_vote_count'' \<mapsto> PInt 0,
        ''total_vote_count'' \<mapsto> PInt 5])\<lparr>validate_unique := True\<rparr>)
   \<and> errors (question_with
       [''has_max_vote_count'' \<mapsto> PBool True, ''max_vote_count'' \<mapsto> PInt 0,
        ''total_vote_count'' \<mapsto> PInt 5]) = []"
  by (simp add: clean_def clean_checks_def ModelForm_clean_def check_vote_end_def
      check_max_vote_count_def check_selection_bounds_def check_total_vote_count_def
      question_with_def dict_get_def add_error_def Let_def two_choices_def py_lt_def
      count_formset_errors_def total_error_count_def empty_formset_def)

section \<open>The maximum vote count, required on condition\<close>

lemma check_total_vote_count_codes:
  assumes "check_total_vote_count self = Inr (r, s')"
    and "c \<noteq> ''total_vote_count_too_big''"
  shows "with_code c (errors_of s' ''max_vote_count'') =
         with_code c (errors_of self ''max_vote_count'')"
  using assms
  by (auto simp: check_total_vote_count_def Let_def errors_of_add_error with_code_def
      split: if_splits sum.splits)

text \<open>
  C7. With a maximum vote count \<open>m\<close> in the cleaned data (an integer or \<^verbatim>\<open>None\<close>),
  \<^verbatim>\<open>check_max_vote_count\<close> adds \<^verbatim>\<open>max_vote_count_required\<close> to \<^verbatim>\<open>max_vote_count\<close>
  exactly when \<open>m\<close> is \<^verbatim>\<open>None\<close> while \<^verbatim>\<open>has_max_vote_count\<close> is true, adds
  \<^verbatim>\<open>max_vote_count_positive\<close> exactly when \<open>m\<close> is an integer below zero, and adds
  nothing for an integer of zero or more; and when \<^verbatim>\<open>clean\<close> returns, the errors of
  \<^verbatim>\<open>max_vote_count\<close> with each of the two codes are the earlier ones followed by the new
  one in those cases alone.
\<close>

theorem max_vote_count_required_iff:
  assumes "dict_get (cleaned_data self) ''max_vote_count'' = int_val m"
  shows "check_max_vote_count self =
           Inr (if m = None \<and> truthy (dict_get (cleaned_data self) ''has_max_vote_count'')
                then add_error self ''max_vote_count'' max_vote_count_required
                else if \<exists>i. m = Some i \<and> i < 0
                then add_error self ''max_vote_count'' max_vote_count_positive
                else self)
         \<and> (\<forall>self'. clean self = Inr self' \<longrightarrow>
              with_code ''max_vote_count_required'' (errors_of self' ''max_vote_count'') =
                with_code ''max_vote_count_required'' (errors_of self ''max_vote_count'') @
                  (if m = None \<and> truthy (dict_get (cleaned_data self) ''has_max_vote_count'')
                   then [max_vote_count_required] else [])
              \<and> with_code ''max_vote_count_positive'' (errors_of self' ''max_vote_count'') =
                with_code ''max_vote_count_positive'' (errors_of self ''max_vote_count'') @
                  (if \<exists>i. m = Some i \<and> i < 0 then [max_vote_count_positive] else []))"
proof (intro conjI allI impI)
  show "check_max_vote_count self =
           Inr (if m = None \<and> truthy (dict_get (cleaned_data self) ''has_max_vote_count'')
                then add_error self ''max_vote_count'' max_vote_count_required
                else if \<exists>i. m = Some i \<and> i < 0
                then add_error self ''max_vote_count'' max_vote_count_positive
                else self)"
    by (rule check_max_vote_count_own [OF assms])
next
  fix self'
  assume cl: "clean self = Inr self'"
  have nf: "''max_vote_count'' \<noteq> NON_FIELD_ERRORS" by (simp add: NON_FIELD_ERRORS_def)
  from cl nf obtain s1 s2 s3 s4 r where
    1: "check_vote_end (ModelForm_clean self) = Inr s1" and
    2: "check_max_vote_count s1 = Inr s2" and
    3: "check_selection_bounds s2 = Inr s3" and
    4: "check_total_vote_count s3 = Inr (r, s4)" and
    5: "errors_of self' ''max_vote_count'' = errors_of s4 ''max_vote_count''"
    by (rule clean_keeps_checked_errors)
  have e1: "errors_of s1 ''max_vote_count'' = errors_of self ''max_vote_count''"
    using check_vote_end_other(2) [OF 1, of "''max_vote_count''"]
    by (simp add: ModelForm_clean_simps)
  have m1: "dict_get (cleaned_data s1) ''max_vote_count'' = int_val m"
    using check_vote_end_other(3) [OF 1, of "''max_vote_count''"] assms
    by (simp add: ModelForm_clean_simps)
  have h1: "dict_get (cleaned_data s1) ''has_max_vote_count'' =
            dict_get (cleaned_data self) ''has_max_vote_count''"
    using check_vote_end_other(3) [OF 1, of "''has_max_vote_count''"]
    by (simp add: ModelForm_clean_simps)
  have e2: "errors_of s2 ''max_vote_count'' =
            errors_of self ''max_vote_count'' @
              (if m = None \<and> truthy (dict_get (cleaned_data self) ''has_max_vote_count'')
               then [max_vote_count_required]
               else if \<exists>i. m = Some i \<and> i < 0 then [max_vote_count_positive] else [])"
    using 2 check_max_vote_count_own [OF m1] e1 h1
    by (auto simp: errors_of_add_error split: if_splits)
  have e3: "errors_of s3 ''max_vote_count'' = errors_of s2 ''max_vote_count''"
    by (rule check_selection_bounds_other(2) [OF 3]) simp_all
  have req: "with_code ''max_vote_count_required'' (errors_of self' ''max_vote_count'') =
             with_code ''max_vote_count_required'' (errors_of s2 ''max_vote_count'')"
    using check_total_vote_count_codes [OF 4, of "''max_vote_count_required''"] 5 e3
    by simp
  have pos: "with_code ''max_vote_count_positive'' (errors_of self' ''max_vote_count'') =
             with_code ''max_vote_count_positive'' (errors_of s2 ''max_vote_count'')"
    using check_total_vote_count_codes [OF 4, of "''max_vote_count_positive''"] 5 e3
    by simp
  show "with_code ''max_vote_count_required'' (errors_of self' ''max_vote_count'') =
          with_code ''max_vote_count_required'' (errors_of self ''max_vote_count'') @
            (if m = None \<and> truthy (dict_get (cleaned_data self) ''has_max_vote_count'')
             then [max_vote_count_required] else [])"
    unfolding req e2
    by (simp add: with_code_def max_vote_count_required_def max_vote_count_positive_def)
  show "with_code ''max_vote_count_positive'' (errors_of self' ''max_vote_count'') =
          with_code ''max_vote_count_positive'' (errors_of self ''max_vote_count'') @
            (if \<exists>i. m = Some i \<and> i < 0 then [max_vote_count_positive] else [])"
    unfolding pos e2
    by (auto simp: with_code_def max_vote_count_required_def max_vote_count_positive_def)
qed

theorem max_vote_count_required_iff_witness:
  "dict_get (cleaned_data (question_with [''has_max_vote_count'' \<mapsto> PBool True]))
     ''max_vote_count'' = int_val None
   \<and> (\<exists>self'. clean (question_with [''has_max_vote_count'' \<mapsto> PBool True]) = Inr self'
        \<and> with_code ''max_vote_count_required'' (errors_of self' ''max_vote_count'') =
            [max_vote_count_required]
        \<and> with_code ''max_vote_count_positive'' (errors_of self' ''max_vote_count'') = [])"
proof -
  let ?q = "question_with [''has_max_vote_count'' \<mapsto> PBool True]"
  have h1: "dict_get (cleaned_data ?q) ''max_vote_count'' = int_val None"
    by (simp add: question_with_def dict_get_def int_val_def)
  have h2: "truthy (dict_get (cleaned_data ?q) ''has_max_vote_count'')"
    by (simp add: question_with_def dict_get_def)
  have h3: "\<exists>self'. clean ?q = Inr self'"
    by (simp add: clean_def clean_checks_def ModelForm_clean_def check_vote_end_def
        check_max_vote_count_def check_selection_bounds_def check_total_vote_count_def
        question_with_def dict_get_def add_error_def Let_def two_choices_def)
  then obtain self' where cl: "clean ?q = Inr self'" ..
  have e: "errors_of ?q ''max_vote_count'' = []"
    by (simp add: errors_of_def question_with_def)
  from max_vote_count_required_iff [OF h1] cl h2 e
  have "with_code ''max_vote_count_required'' (errors_of self' ''max_vote_count'') =
            [max_vote_count_required]
        \<and> with_code ''max_vote_count_positive'' (errors_of self' ''max_vote_count'') = []"
    by (simp add: with_code_def)
  with h1 cl show ?thesis by blast
qed

section \<open>The widget of the maximum vote count\<close>

text \<open>
  C8. For a form with the two fields, let \<open>toggle\<close> be the live value of
  \<^verbatim>\<open>has_max_vote_count\<close>: the value of the bound field when the form is bound, the
  initial value otherwise. \<^verbatim>\<open>MaxVoteCountForm.__init__\<close> returns, and the widget
  attributes of \<^verbatim>\<open>max_vote_count\<close> are the earlier ones with \<^verbatim>\<open>required\<close> set when
  \<open>toggle\<close> is true, and with \<^verbatim>\<open>disabled\<close> set and an empty \<^verbatim>\<open>value\<close> when it is
  false: in the first case \<^verbatim>\<open>disabled\<close> and \<^verbatim>\<open>value\<close> are as before, in the second
  \<^verbatim>\<open>required\<close> is. The checkbox gets \<^verbatim>\<open>data-reload-form\<close>.
\<close>

theorem max_vote_count_widget_toggle:
  assumes "form_fields self ''has_max_vote_count'' = Some has_attrs"
    and "form_fields self ''max_vote_count'' = Some max_attrs"
  shows "\<exists>toggle self' attrs'.
           toggle = (if is_bound self then bound_value self ''has_max_vote_count''
                     else dict_get (initial self) ''has_max_vote_count'')
           \<and> get_field_value self ''has_max_vote_count'' = Inr toggle
           \<and> MaxVoteCountForm_init self = Inr self'
           \<and> form_fields self' ''max_vote_count'' = Some attrs'
           \<and> attrs' = (if truthy toggle then max_attrs(''required'' \<mapsto> ABool True)
                       else max_attrs(''disabled'' \<mapsto> ABool True, ''value'' \<mapsto> AStr []))
           \<and> attrs' ''required'' =
               (if truthy toggle then Some (ABool True) else max_attrs ''required'')
           \<and> attrs' ''disabled'' =
               (if truthy toggle then max_attrs ''disabled'' else Some (ABool True))
           \<and> attrs' ''value'' =
               (if truthy toggle then max_attrs ''value'' else Some (AStr []))
           \<and> form_fields self' ''has_max_vote_count'' =
               Some (has_attrs(''data-reload-form'' \<mapsto> ABool True))"
  using assms
  by (simp add: MaxVoteCountForm_init_def get_field_value_def Let_def)

theorem max_vote_count_widget_toggle_witness:
  "form_fields bound_checked_form ''has_max_vote_count'' = Some Map.empty
   \<and> form_fields bound_checked_form ''max_vote_count'' = Some Map.empty
   \<and> (\<exists>self'. MaxVoteCountForm_init bound_checked_form = Inr self'
        \<and> form_fields self' ''max_vote_count'' = Some [''required'' \<mapsto> ABool True])"
proof -
  have h1: "form_fields bound_checked_form ''has_max_vote_count'' = Some Map.empty"
    by (simp add: bound_checked_form_def)
  have h2: "form_fields bound_checked_form ''max_vote_count'' = Some Map.empty"
    by (simp add: bound_checked_form_def)
  have t: "is_bound bound_checked_form"
    "truthy (bound_value bound_checked_form ''has_max_vote_count'')"
    by (simp_all add: bound_checked_form_def)
  from max_vote_count_widget_toggle [OF h1 h2] t
  have "\<exists>self'. MaxVoteCountForm_init bound_checked_form = Inr self'
        \<and> form_fields self' ''max_vote_count'' = Some [''required'' \<mapsto> ABool True]"
    by auto
  with h1 h2 show ?thesis by simp
qed

lemma unbound_unchecked_disabled:
  "\<exists>self'. MaxVoteCountForm_init unbound_unchecked_form = Inr self'
      \<and> form_fields self' ''max_vote_count'' =
          Some [''disabled'' \<mapsto> ABool True, ''value'' \<mapsto> AStr []]"
  by (simp add: MaxVoteCountForm_init_def get_field_value_def Let_def
      unbound_unchecked_form_def dict_get_def)

section \<open>The minimum follower count\<close>

lemma annotate_count_annotations:
  "r \<in> set (annotate_count db alias name queryset) \<Longrightarrow>
     annotations r alias = Some (length (db name (pk r)))"
  by (auto simp: annotate_count_def)

lemma annotate_count_pk:
  "map pk (annotate_count db alias name queryset) = map pk queryset"
  by (simp add: annotate_count_def o_def)

lemma py_int_of_int: "py_int (of_int i) = i"
  by (simp add: py_int_def)

lemma filter_count_gte_result:
  "filter_count_gte db queryset name value =
     Inr (filter (\<lambda>r. py_int value \<le> int (length (db name (pk r))))
            (annotate_count db ''name_count'' name queryset))"
proof -
  let ?qs = "annotate_count db ''name_count'' name queryset"
  have ann: "annotations r ''name_count'' = Some (length (db name (pk r)))"
    if "r \<in> set ?qs" for r
    using that by (rule annotate_count_annotations)
  have ok: "\<not> (\<exists>r \<in> set ?qs. annotations r ''name_count'' = None)"
    using ann by auto
  have same: "filter (\<lambda>r. case annotations r ''name_count'' of
                            None \<Rightarrow> False | Some c \<Rightarrow> py_int value \<le> int c) ?qs =
              filter (\<lambda>r. py_int value \<le> int (length (db name (pk r)))) ?qs"
    by (rule filter_cong) (simp_all add: ann)
  show ?thesis
    using ok same by (simp add: filter_count_gte_def filter_gte_def Let_def)
qed

text \<open>
  C9, as the code has it. \<^verbatim>\<open>filter_count_gte\<close> returns, and its result is the annotated
  queryset restricted to the rows whose number of related records under the named
  relation is at least the threshold with its fraction cut off: the keys of the result
  are those keys of the input queryset, in the order of the input and with its
  repetitions. For a threshold that is a whole number \<open>i\<close> these are the keys with at
  least \<open>i\<close> related records.
\<close>

theorem filter_count_gte_truncated:
  "(\<exists>result. filter_count_gte db queryset name value = Inr result
      \<and> result = filter (\<lambda>r. py_int value \<le> int (length (db name (pk r))))
                   (annotate_count db ''name_count'' name queryset)
      \<and> map pk result =
          filter (\<lambda>k. py_int value \<le> int (length (db name k))) (map pk queryset))
   \<and> (\<exists>result. filter_count_gte db queryset name (of_int i) = Inr result
      \<and> map pk result =
          filter (\<lambda>k. (of_int i :: rat) \<le> of_nat (length (db name k))) (map pk queryset))"
proof (intro conjI)
  show "\<exists>result. filter_count_gte db queryset name value = Inr result
      \<and> result = filter (\<lambda>r. py_int value \<le> int (length (db name (pk r))))
                   (annotate_count db ''name_count'' name queryset)
      \<and> map pk result =
          filter (\<lambda>k. py_int value \<le> int (length (db name k))) (map pk queryset)"
    by (simp add: filter_count_gte_result annotate_count_def filter_map o_def)
next
  have cmp: "((of_int i :: rat) \<le> of_nat n) = (i \<le> int n)" for n
    using of_int_le_iff [of i "int n", where ?'a = rat] by simp
  show "\<exists>result. filter_count_gte db queryset name (of_int i) = Inr result
      \<and> map pk result =
          filter (\<lambda>k. (of_int i :: rat) \<le> of_nat (length (db name k))) (map pk queryset)"
    by (simp add: filter_count_gte_result annotate_count_def filter_map o_def
        py_int_of_int cmp)
qed

text \<open>
  A threshold of two and a half: the user 1, with two followers, is below the
  threshold and is returned all the same, next to the user 2 with three.
\<close>

theorem filter_count_gte_fraction_counterexample:
  "\<not> ((5 / 2 :: rat) \<le> of_nat (length (example_db ''user_followed'' 1)))
   \<and> filter_count_gte example_db example_users ''user_followed'' (5 / 2) =
       Inr [\<lparr>pk = 1, annotations = [''name_count'' \<mapsto> 2]\<rparr>,
            \<lparr>pk = 2, annotations = [''name_count'' \<mapsto> 3]\<rparr>]"
proof -
  have f: "\<lfloor>5 / 2 :: rat\<rfloor> = 2" by (rule floor_unique) simp_all
  show ?thesis
    by (simp add: filter_count_gte_def filter_gte_def annotate_count_def Let_def
        example_db_def example_users_def py_int_def f numeral_2_eq_2 numeral_3_eq_3)
qed

section \<open>The file name of an uploaded file\<close>

lemma split_first_Some:
  "split_first sep s = Some (a, b) \<Longrightarrow> s = a @ sep @ b"
proof (induction s arbitrary: a)
  case Nil
  then show ?case by simp
next
  case (Cons c cs)
  show ?case
  proof (cases "prefix sep (c # cs)")
    case True
    then obtain zs where zs: "c # cs = sep @ zs" by (auto simp: prefix_def)
    from True Cons.prems have "a = []" "b = drop (length sep) (c # cs)" by simp_all
    then show ?thesis using zs by simp
  next
    case False
    with Cons.prems obtain a' where "split_first sep cs = Some (a', b)" "a = c # a'"
      by (auto split: option.splits)
    with Cons.IH [of a'] show ?thesis by simp
  qed
qed

lemma split_first_None:
  assumes "sep \<noteq> []"
  shows "split_first sep s = None \<Longrightarrow> s \<noteq> a @ sep @ b"
proof (induction s arbitrary: a)
  case Nil
  with assms show ?case by simp
next
  case (Cons c cs)
  from Cons.prems have np: "\<not> prefix sep (c # cs)" and rec: "split_first sep cs = None"
    by (auto split: if_splits option.splits)
  show ?case
  proof (cases a)
    case Nil
    with np show ?thesis by (auto simp: prefix_def)
  next
    case (Cons x xs)
    with Cons.IH [OF rec, of xs] show ?thesis by auto
  qed
qed

lemma split_first_first:
  assumes "sep \<noteq> []"
  shows "split_first sep s = Some (a, b) \<Longrightarrow> s = a' @ sep @ b' \<Longrightarrow> length a \<le> length a'"
proof (induction s arbitrary: a a')
  case Nil
  then show ?case by simp
next
  case (Cons c cs)
  show ?case
  proof (cases "prefix sep (c # cs)")
    case True
    with Cons.prems(1) show ?thesis by simp
  next
    case False
    with Cons.prems(1) obtain a0 where rec: "split_first sep cs = Some (a0, b)" and a: "a = c # a0"
      by (auto split: option.splits)
    show ?thesis
    proof (cases a')
      case Nil
      with Cons.prems(2) False show ?thesis by (auto simp: prefix_def)
    next
      case (Cons x xs)
      with Cons.prems(2) have "cs = xs @ sep @ b'" by simp
      from Cons.IH [OF rec this] a Cons show ?thesis by simp
    qed
  qed
qed

lemma split_first_keeps_tail:
  assumes "sep \<noteq> []" and "split_first sep s = Some (a, b)" and "s = a' @ sep @ b'"
  shows "\<exists>z. b = z @ b'"
proof -
  have le: "length a \<le> length a'" by (rule split_first_first [OF assms])
  have s: "s = a @ sep @ b" by (rule split_first_Some [OF assms(2)])
  have "b = drop (length a + length sep) s" using s by simp
  also have "\<dots> = drop (length a + length sep) ((a' @ sep) @ b')" using assms(3) by simp
  also have "\<dots> = drop (length a + length sep) (a' @ sep) @ b'"
    using le by (simp del: append_assoc)
  finally show ?thesis by blast
qed

text \<open>
  C10. Let the framework's URL cleaning return \<open>url\<close>, the bucket name be non-empty and
  the field's destination be configured with a non-empty key. For an empty \<open>url\<close>,
  \<^verbatim>\<open>clean\<close> returns the empty string. For a non-empty \<open>url\<close>, \<^verbatim>\<open>clean\<close> returns a file
  name exactly when the \<open>url\<close> contains the bucket name followed, later, by the
  destination directory (with its closing slash), and the file name is then what
  follows such a directory; otherwise the second element of a split does not exist and
  \<^verbatim>\<open>clean\<close> fails with \<^verbatim>\<open>IndexError\<close>.
\<close>

theorem s3_clean_needs_bucket_then_dir:
  assumes "URLField_clean value = Inr url"
    and "AWS_STORAGE_BUCKET_NAME settings \<noteq> []"
    and "S3DIRECT_DESTINATIONS settings (dest self) = Some destination"
    and "destination ''key'' = Some file_dir0"
    and "file_dir0 \<noteq> []"
  shows "(url = [] \<longrightarrow>
            FileS3UploadField_clean settings URLField_clean self value = Inr [])
         \<and> (url \<noteq> [] \<and>
              (\<exists>a b c. url = a @ AWS_STORAGE_BUCKET_NAME settings @ b
                           @ with_trailing_slash file_dir0 @ c) \<longrightarrow>
              (\<exists>a b file_name.
                 FileS3UploadField_clean settings URLField_clean self value = Inr file_name
                 \<and> url = a @ AWS_STORAGE_BUCKET_NAME settings @ b
                           @ with_trailing_slash file_dir0 @ file_name))
         \<and> (url \<noteq> [] \<and>
              \<not> (\<exists>a b c. url = a @ AWS_STORAGE_BUCKET_NAME settings @ b
                           @ with_trailing_slash file_dir0 @ c) \<longrightarrow>
              FileS3UploadField_clean settings URLField_clean self value = Inl IndexError)"
proof -
  let ?bucket = "AWS_STORAGE_BUCKET_NAME settings"
  let ?dir = "with_trailing_slash file_dir0"
  let ?clean = "FileS3UploadField_clean settings URLField_clean self value"
  have dir: "?dir \<noteq> []"
    using assms(5) by (simp add: with_trailing_slash_def)
  have empty: "?clean = Inr []" if "url = []"
    using that assms(1) by (simp add: FileS3UploadField_clean_def)
  have run: "?clean =
      (case py_split_max1 url ?bucket of
         Inl e \<Rightarrow> Inl e
       | Inr parts \<Rightarrow>
          (case py_index parts 1 of
             Inl e \<Rightarrow> Inl e
           | Inr file_name \<Rightarrow>
              (case py_split_max1 file_name ?dir of
                 Inl e \<Rightarrow> Inl e
               | Inr parts2 \<Rightarrow> py_index parts2 1)))" if "url \<noteq> []"
    using that assms unfolding with_trailing_slash_def
    by (simp add: FileS3UploadField_clean_def Let_def)
  have result: "(\<exists>a b file_name. ?clean = Inr file_name
                   \<and> url = a @ ?bucket @ b @ ?dir @ file_name)
                \<or> (?clean = Inl IndexError
                    \<and> \<not> (\<exists>a b c. url = a @ ?bucket @ b @ ?dir @ c))" if ne: "url \<noteq> []"
  proof (cases "split_first ?bucket url")
    case None
    have "?clean = Inl IndexError"
      using run [OF ne] None assms(2) by (simp add: py_split_max1_def py_index_def)
    moreover have "\<not> (\<exists>a b c. url = a @ ?bucket @ b @ ?dir @ c)"
      using split_first_None [OF assms(2) None] by blast
    ultimately show ?thesis by blast
  next
    case (Some p)
    obtain a0 rest where p: "p = (a0, rest)" by (cases p)
    have first: "split_first ?bucket url = Some (a0, rest)" using Some p by simp
    have url: "url = a0 @ ?bucket @ rest" by (rule split_first_Some [OF first])
    have step: "?clean =
        (case py_split_max1 rest ?dir of
           Inl e \<Rightarrow> Inl e
         | Inr parts2 \<Rightarrow> py_index parts2 1)"
      using run [OF ne] first assms(2) by (simp add: py_split_max1_def py_index_def)
    show ?thesis
    proof (cases "split_first ?dir rest")
      case None
      have "?clean = Inl IndexError"
        using step None dir by (simp add: py_split_max1_def py_index_def)
      moreover have "\<not> (\<exists>a b c. url = a @ ?bucket @ b @ ?dir @ c)"
      proof
        assume "\<exists>a b c. url = a @ ?bucket @ b @ ?dir @ c"
        then obtain a b c where "url = a @ ?bucket @ (b @ ?dir @ c)" by auto
        from split_first_keeps_tail [OF assms(2) first this]
        obtain z where "rest = (z @ b) @ ?dir @ c" by auto
        with split_first_None [OF dir None] show False by blast
      qed
      ultimately show ?thesis by blast
    next
      case (Some q)
      obtain x file_name where q: "q = (x, file_name)" by (cases q)
      have second: "split_first ?dir rest = Some (x, file_name)" using Some q by simp
      have rest: "rest = x @ ?dir @ file_name" by (rule split_first_Some [OF second])
      have "?clean = Inr file_name"
        using step second dir by (simp add: py_split_max1_def py_index_def)
      moreover have "url = a0 @ ?bucket @ x @ ?dir @ file_name"
        using url rest by simp
      ultimately show ?thesis by blast
    qed
  qed
  show ?thesis
  proof (intro conjI impI)
    assume "url = []"
    then show "?clean = Inr []" by (rule empty)
  next
    assume h: "url \<noteq> [] \<and> (\<exists>a b c. url = a @ ?bucket @ b @ ?dir @ c)"
    with result [of] show "\<exists>a b file_name. ?clean = Inr file_name
                   \<and> url = a @ ?bucket @ b @ ?dir @ file_name"
      by blast
  next
    assume h: "url \<noteq> [] \<and> \<not> (\<exists>a b c. url = a @ ?bucket @ b @ ?dir @ c)"
    with result [of] show "?clean = Inl IndexError"
      by blast
  qed
qed

lemma s3_clean_example:
  "FileS3UploadField_clean example_settings Inr document_field ''s3/bkt/up/a.pdf'' = Inr ''a.pdf''"
  "FileS3UploadField_clean example_settings Inr document_field ''s3/other/a.pdf'' = Inl IndexError"
  "FileS3UploadField_clean example_settings Inr document_field [] = Inr []"
  by (simp_all add: FileS3UploadField_clean_def example_settings_def document_field_def
      py_split_max1_def py_index_def Let_def)

theorem s3_clean_needs_bucket_then_dir_witness:
  "(Inr ''s3/bkt/up/a.pdf'' :: py_error + string) = Inr ''s3/bkt/up/a.pdf''
   \<and> AWS_STORAGE_BUCKET_NAME example_settings \<noteq> []
   \<and> S3DIRECT_DESTINATIONS example_settings (dest document_field) = Some [''key'' \<mapsto> ''up'']
   \<and> [''key'' \<mapsto> ''up''] ''key'' = Some ''up''
   \<and> ''up'' \<noteq> []
   \<and> (\<exists>a b file_name.
         FileS3UploadField_clean example_settings Inr document_field ''s3/bkt/up/a.pdf''
           = Inr file_name
         \<and> ''s3/bkt/up/a.pdf'' = a @ ''bkt'' @ b @ ''up/'' @ file_name)"
proof -
  have h1: "(Inr ''s3/bkt/up/a.pdf'' :: py_error + string) = Inr ''s3/bkt/up/a.pdf''" by simp
  have h2: "AWS_STORAGE_BUCKET_NAME example_settings \<noteq> []"
    by (simp add: example_settings_def)
  have h3: "S3DIRECT_DESTINATIONS example_settings (dest document_field) =
            Some [''key'' \<mapsto> ''up'']"
    by (simp add: example_settings_def document_field_def)
  have h4: "[''key'' \<mapsto> ''up''] ''key'' = Some ''up''" by simp
  have h5: "''up'' \<noteq> []" by simp
  have b: "AWS_STORAGE_BUCKET_NAME example_settings = ''bkt''"
    by (simp add: example_settings_def)
  have d: "with_trailing_slash ''up'' = ''up/''"
    by (simp add: with_trailing_slash_def)
  have "''s3/bkt/up/a.pdf'' = ''s3/'' @ ''bkt'' @ ''/'' @ ''up/'' @ ''a.pdf''" by simp
  then have p: "\<exists>a b c. ''s3/bkt/up/a.pdf'' = a @ ''bkt'' @ b @ ''up/'' @ c" by blast
  from s3_clean_needs_bucket_then_dir [of Inr "''s3/bkt/up/a.pdf''" "''s3/bkt/up/a.pdf''"
      example_settings document_field "[''key'' \<mapsto> ''up'']" "''up''", OF h1 h2 h3 h4 h5] p
  have "\<exists>a b file_name.
         FileS3UploadField_clean example_settings Inr document_field ''s3/bkt/up/a.pdf''
           = Inr file_name
         \<and> ''s3/bkt/up/a.pdf'' = a @ ''bkt'' @ b @ ''up/'' @ file_name"
    unfolding b d by simp
  with h2 h3 show ?thesis by simp
qed

end
